theory Spec2Isabelle
  imports Main "HOL-Library.Word"
begin

unbundle bit_operations_syntax

section \<open>The PoA lock script (c/poa.c)\<close>

text \<open>
  A shallow embedding of the lock script \<^verbatim>\<open>c/poa.c\<close>. The script runs on CKB-VM, a
  little-endian RV64 machine: \<^verbatim>\<open>int\<close> has 32 bits, \<^verbatim>\<open>size_t\<close> and \<^verbatim>\<open>uint64_t\<close> have 64.
  Return codes are C \<^verbatim>\<open>int\<close>s and are modelled as \<open>int\<close>; the fixed-width unsigned
  fields are words, so their arithmetic wraps around as in C.
\<close>

type_synonym byte = "8 word"

subsection \<open>Constants\<close>

text \<open>
  Modelled from the spec: the header \<^verbatim>\<open>ckb_consts.h\<close> of the CKB standard library, which
  declares the return codes of the host's system calls, is not part of the repository.
  The spec names the three outcomes of a read that the script tells apart (success, index
  out of bound, item missing); the values are those of the host interface.
\<close>

definition CKB_SUCCESS :: int where
  "CKB_SUCCESS = 0"

definition CKB_INDEX_OUT_OF_BOUND :: int where
  "CKB_INDEX_OUT_OF_BOUND = 1"

definition CKB_ITEM_MISSING :: int where
  "CKB_ITEM_MISSING = 2"

text \<open>The script's own constants (\<^verbatim>\<open>#define\<close>s at the top of the file).\<close>

definition POA_BUFFER_SIZE :: nat where
  "POA_BUFFER_SIZE = 16384"

definition IDENTITY_SIZE :: nat where
  "IDENTITY_SIZE = 32"

definition ERROR_TRANSACTION :: int where
  "ERROR_TRANSACTION = - 1"

definition ERROR_ENCODING :: int where
  "ERROR_ENCODING = - 2"

definition SIZE_MAX :: nat where
  "SIZE_MAX = 2 ^ 64 - 1"

subsection \<open>Reading the buffers\<close>

text \<open>
  \<^verbatim>\<open>*((uint32_t *)(&buf[k]))\<close> and its 16 and 64 bit siblings read consecutive bytes
  least significant byte first. \<open>le_nat\<close> is the value of a byte string read that way.
\<close>

fun le_nat :: "byte list \<Rightarrow> nat" where
  "le_nat [] = 0"
| "le_nat (b # bs) = unat b + 256 * le_nat bs"

definition load_u16 :: "byte list \<Rightarrow> nat \<Rightarrow> 16 word" where
  "load_u16 buf k = of_nat (le_nat (take 2 (drop k buf)))"

definition load_u32 :: "byte list \<Rightarrow> nat \<Rightarrow> 32 word" where
  "load_u32 buf k = of_nat (le_nat (take 4 (drop k buf)))"

definition load_u64 :: "byte list \<Rightarrow> nat \<Rightarrow> 64 word" where
  "load_u64 buf k = of_nat (le_nat (take 8 (drop k buf)))"

text \<open>
  \<^verbatim>\<open>memcmp(a, b, n) == 0\<close>: the first \<open>n\<close> bytes of the two buffers agree. The callers
  pass buffers that hold at least \<open>n\<close> bytes.
\<close>

definition memcmp_eq :: "byte list \<Rightarrow> byte list \<Rightarrow> nat \<Rightarrow> bool" where
  "memcmp_eq a b n = (take n a = take n b)"

subsection \<open>PoASetup and parse_poa_setup\<close>

record PoASetup =
  source_data :: "byte list"
  source_length :: nat
  interval_uses_seconds :: bool
  identity_size :: byte
  aggregator_number :: byte
  aggregator_change_threshold :: byte
  subblock_intervals :: "32 word"
  subblocks_per_interval :: "32 word"
  identities :: "byte list"

text \<open>
  \<open>parse_poa_setup\<close> returns \<open>Inl\<close> of the error code, or \<open>Inr\<close> of the filled record
  where the C function returns \<^verbatim>\<open>CKB_SUCCESS\<close>. The buffer is the list of the
  \<^verbatim>\<open>source_length\<close> bytes at \<^verbatim>\<open>source_data\<close>, so \<^verbatim>\<open>source_length\<close> is its length and
  \<^verbatim>\<open>&source_data[12]\<close> is the list without its first 12 bytes.
\<close>

definition parse_poa_setup :: "byte list \<Rightarrow> int + PoASetup" where
  "parse_poa_setup buf =
     (if length buf < 12 then Inl ERROR_ENCODING
      else
        let output = \<lparr> source_data = buf,
                       source_length = length buf,
                       interval_uses_seconds = ((buf ! 0) AND 1 = 1),
                       identity_size = buf ! 1,
                       aggregator_number = buf ! 2,
                       aggregator_change_threshold = buf ! 3,
                       subblock_intervals = load_u32 buf 4,
                       subblocks_per_interval = load_u32 buf 8,
                       identities = drop 12 buf \<rparr>
        in if unat (identity_size output) > IDENTITY_SIZE then Inl ERROR_ENCODING
           else if aggregator_change_threshold output > aggregator_number output
             then Inl ERROR_ENCODING
           else if length buf \<noteq>
                     12 + unat (identity_size output) * unat (aggregator_number output)
             then Inl ERROR_ENCODING
           else Inr output)"

subsection \<open>The transaction as the host shows it\<close>

text \<open>
  Modelled from the spec: the system calls of \<^verbatim>\<open>ckb_syscalls.h\<close> and the molecule reader
  of \<^verbatim>\<open>blockchain.h\<close> are not part of the repository. The script sees the transaction only
  through them, so a transaction is the collection of what each call returns: a return
  code and the item the host holds. A call that loads an item sets \<^verbatim>\<open>len\<close> to the item's
  full length and copies as many of its bytes as the buffer takes. A read past the last
  cell of a side returns \<^verbatim>\<open>CKB_INDEX_OUT_OF_BOUND\<close>.
\<close>

type_synonym syscall_result = "int \<times> byte list"

record cell =
  cell_type :: syscall_result
  cell_lock_hash :: syscall_result
  cell_data :: syscall_result

record transaction =
  tx_inputs :: "cell list"
  tx_outputs :: "cell list"
  tx_cell_deps :: "cell list"
  tx_group_inputs :: nat
  tx_group_outputs :: nat
  tx_group_since :: syscall_result
  tx_script_ret :: int
  tx_script_verified :: bool
  tx_script_args :: "byte list"

datatype source =
  CKB_SOURCE_INPUT | CKB_SOURCE_OUTPUT | CKB_SOURCE_CELL_DEP
| CKB_SOURCE_GROUP_INPUT | CKB_SOURCE_GROUP_OUTPUT

datatype cell_field = CKB_CELL_FIELD_TYPE | CKB_CELL_FIELD_LOCK_HASH

fun cells_of :: "transaction \<Rightarrow> source \<Rightarrow> cell list" where
  "cells_of tx CKB_SOURCE_INPUT = tx_inputs tx"
| "cells_of tx CKB_SOURCE_OUTPUT = tx_outputs tx"
| "cells_of tx CKB_SOURCE_CELL_DEP = tx_cell_deps tx"
| "cells_of tx CKB_SOURCE_GROUP_INPUT = []"
| "cells_of tx CKB_SOURCE_GROUP_OUTPUT = []"

fun field_of :: "cell \<Rightarrow> cell_field \<Rightarrow> syscall_result" where
  "field_of c CKB_CELL_FIELD_TYPE = cell_type c"
| "field_of c CKB_CELL_FIELD_LOCK_HASH = cell_lock_hash c"

text \<open>
  \<^verbatim>\<open>ckb_load_cell_by_field(buf, &len, 0, index, source, field)\<close>: the return code and the
  item.
\<close>

definition ckb_load_cell_by_field ::
  "transaction \<Rightarrow> nat \<Rightarrow> source \<Rightarrow> cell_field \<Rightarrow> syscall_result" where
  "ckb_load_cell_by_field tx index src field =
     (if index < length (cells_of tx src) then field_of (cells_of tx src ! index) field
      else (CKB_INDEX_OUT_OF_BOUND, []))"

text \<open>\<^verbatim>\<open>ckb_load_cell_data(buf, &len, 0, index, source)\<close>.\<close>

definition ckb_load_cell_data :: "transaction \<Rightarrow> nat \<Rightarrow> source \<Rightarrow> syscall_result" where
  "ckb_load_cell_data tx index src =
     (if index < length (cells_of tx src) then cell_data (cells_of tx src ! index)
      else (CKB_INDEX_OUT_OF_BOUND, []))"

text \<open>
  \<^verbatim>\<open>ckb_load_cell(NULL, &len, 0, index, source)\<close> with \<^verbatim>\<open>len = 0\<close>, as \<open>main\<close> calls it on
  the two sides of its own script group: nothing is copied, and the return code tells
  whether the group has a cell at that index.
\<close>

definition ckb_load_cell :: "transaction \<Rightarrow> nat \<Rightarrow> source \<Rightarrow> int" where
  "ckb_load_cell tx index src =
     (let n = (case src of
                 CKB_SOURCE_GROUP_INPUT \<Rightarrow> tx_group_inputs tx
               | CKB_SOURCE_GROUP_OUTPUT \<Rightarrow> tx_group_outputs tx
               | _ \<Rightarrow> length (cells_of tx src))
      in if index < n then CKB_SUCCESS else CKB_INDEX_OUT_OF_BOUND)"

text \<open>
  \<^verbatim>\<open>ckb_load_input_by_field(buf, &len, 0, 0, CKB_SOURCE_GROUP_INPUT, CKB_INPUT_FIELD_SINCE)\<close>:
  the since field of the first input of the script group.
\<close>

definition ckb_load_input_since :: "transaction \<Rightarrow> syscall_result" where
  "ckb_load_input_since tx = tx_group_since tx"

subsection \<open>validate_single_signing\<close>

text \<open>
  The loop reads the lock hash of input \<open>current\<close> into the 32-byte buffer \<^verbatim>\<open>hash\<close>.
  \<open>validate_single_signing_from\<close> is the loop entered with the given \<open>current\<close>.
\<close>

function validate_single_signing_from ::
  "transaction \<Rightarrow> byte list \<Rightarrow> nat \<Rightarrow> nat \<Rightarrow> int" where
  "validate_single_signing_from tx identity id_size current =
     (if current < SIZE_MAX then
        (let (ret, item) =
               ckb_load_cell_by_field tx current CKB_SOURCE_INPUT CKB_CELL_FIELD_LOCK_HASH;
             hash = take 32 item
         in if ret = CKB_INDEX_OUT_OF_BOUND then ERROR_ENCODING
            else if ret \<noteq> CKB_SUCCESS then ret
            else if memcmp_eq hash identity id_size then CKB_SUCCESS
            else validate_single_signing_from tx identity id_size (current + 1))
      else ERROR_ENCODING)"
  by pat_completeness auto
termination
  by (relation "measure (\<lambda>(tx, identity, id_size, current).
                   length (tx_inputs tx) - current)")
     (auto simp: ckb_load_cell_by_field_def split: if_splits)

declare validate_single_signing_from.simps [simp del]

definition validate_single_signing :: "transaction \<Rightarrow> byte list \<Rightarrow> nat \<Rightarrow> int" where
  "validate_single_signing tx identity id_size =
     validate_single_signing_from tx identity id_size 0"

subsection \<open>validate_consensus_signing\<close>

text \<open>
  \<^verbatim>\<open>1 << (found_identity % 64)\<close> shifts the \<^verbatim>\<open>int\<close> constant \<^verbatim>\<open>1\<close>, so the shift is a
  32-bit one, and \<^verbatim>\<open>|=\<close> converts its \<^verbatim>\<open>int\<close> result to \<^verbatim>\<open>uint64_t\<close> by sign extension.
  For a count below 31 the value is the single bit. For the count 31 the \<^verbatim>\<open>int\<close> is
  \<^verbatim>\<open>INT_MIN\<close>, whose conversion sets the bits 31 to 63. For a count of 32 or more C leaves
  the shift undefined; the 32-bit shift instruction of the script's machine (RV64
  \<^verbatim>\<open>sllw\<close>) takes the count modulo 32, and that is what is modelled.
\<close>

definition shl_int_1 :: "nat \<Rightarrow> 64 word" where
  "shl_int_1 k = scast (push_bit (k mod 32) (1 :: 32 word))"

text \<open>
  The inner \<^verbatim>\<open>for\<close> loop, entered with the given \<open>found_identity\<close>: the first identity
  at or after it that is not marked in \<open>marks\<close> (the array \<^verbatim>\<open>mask\<close>) and whose bytes
  equal the hash, or \<open>identity_count\<close> when there is none.
\<close>

function find_identity ::
  "64 word list \<Rightarrow> byte list \<Rightarrow> byte list \<Rightarrow> nat \<Rightarrow> byte \<Rightarrow> byte \<Rightarrow> byte" where
  "find_identity marks hash identity_buffer id_size identity_count found_identity =
     (if found_identity < identity_count then
        (let found =
               (drop_bit (unat found_identity mod 64) (marks ! (unat found_identity div 64))
                  AND 1 \<noteq> 0)
         in if \<not> found \<and>
               memcmp_eq hash (drop (unat found_identity * id_size) identity_buffer) id_size
            then found_identity
            else find_identity marks hash identity_buffer id_size identity_count
                   (found_identity + 1))
      else found_identity)"
  by pat_completeness auto
termination
  by (relation "measure (\<lambda>(marks, hash, identity_buffer, id_size, identity_count,
                   found_identity). unat identity_count - unat found_identity)")
     (simp, unat_arith)

declare find_identity.simps [simp del]

text \<open>
  The outer loop, entered with the given \<open>marks\<close>, \<open>found\<close> and \<open>current\<close>. \<open>marks\<close> is
  the array \<^verbatim>\<open>mask\<close> of four \<^verbatim>\<open>uint64_t\<close>, \<open>found\<close> the \<^verbatim>\<open>uint8_t\<close> counter, which wraps
  around at 256.
\<close>

function validate_consensus_signing_from ::
  "transaction \<Rightarrow> byte list \<Rightarrow> nat \<Rightarrow> byte \<Rightarrow> byte \<Rightarrow> 64 word list \<Rightarrow> byte \<Rightarrow> nat \<Rightarrow> int"
  where
  "validate_consensus_signing_from tx identity_buffer id_size identity_count threshold
       marks found current =
     (if current < SIZE_MAX then
        (let (ret, item) =
               ckb_load_cell_by_field tx current CKB_SOURCE_INPUT CKB_CELL_FIELD_LOCK_HASH;
             hash = take 32 item
         in if ret = CKB_INDEX_OUT_OF_BOUND then ERROR_ENCODING
            else if ret \<noteq> CKB_SUCCESS then ret
            else
              (let found_identity =
                     find_identity marks hash identity_buffer id_size identity_count 0
               in if found_identity < identity_count then
                    (if found + 1 = threshold then CKB_SUCCESS
                     else validate_consensus_signing_from tx identity_buffer id_size
                            identity_count threshold
                            (marks[unat found_identity div 64 :=
                                    marks ! (unat found_identity div 64)
                                      OR shl_int_1 (unat found_identity mod 64)])
                            (found + 1) (current + 1))
                  else validate_consensus_signing_from tx identity_buffer id_size
                         identity_count threshold marks found (current + 1)))
      else ERROR_ENCODING)"
  by pat_completeness auto
termination
  by (relation "measure (\<lambda>(tx, identity_buffer, id_size, identity_count, threshold,
                   marks, found, current). length (tx_inputs tx) - current)")
     (auto simp: ckb_load_cell_by_field_def split: if_splits)

declare validate_consensus_signing_from.simps [simp del]

definition validate_consensus_signing ::
  "transaction \<Rightarrow> byte list \<Rightarrow> nat \<Rightarrow> byte \<Rightarrow> byte \<Rightarrow> int" where
  "validate_consensus_signing tx identity_buffer id_size identity_count threshold =
     validate_consensus_signing_from tx identity_buffer id_size identity_count threshold
       [0, 0, 0, 0] 0 0"

subsection \<open>look_for_poa_cell\<close>

definition type_id_script_prefix :: "byte list" where
  "type_id_script_prefix =
     [0x55, 0x00, 0x00, 0x00, 0x10, 0x00, 0x00, 0x00, 0x30, 0x00, 0x00,
      0x00, 0x31, 0x00, 0x00, 0x00, 0x00, 0x00, 0x00, 0x00, 0x00, 0x00,
      0x00, 0x00, 0x00, 0x00, 0x00, 0x00, 0x00, 0x00, 0x00, 0x00, 0x00,
      0x00, 0x00, 0x00, 0x00, 0x00, 0x00, 0x00, 0x00, 0x54, 0x59, 0x50,
      0x45, 0x5f, 0x49, 0x44, 0x01, 0x20, 0x00, 0x00, 0x00]"

text \<open>
  The function returns its code and the value of \<^verbatim>\<open>*index\<close> after the call; \<open>index\<close> is
  the value before it, which is written only on success. \<open>look_for_poa_cell_from\<close> is
  the loop entered with \<^verbatim>\<open>running == 1\<close> and the given \<open>current\<close> and \<open>found_index\<close>,
  followed by the code after the loop. The \<^verbatim>\<open>default\<close> case clears \<^verbatim>\<open>running\<close>, which
  ends the loop.
\<close>

definition look_for_poa_cell_end :: "nat \<Rightarrow> nat \<Rightarrow> int \<times> nat" where
  "look_for_poa_cell_end found_index index =
     (if found_index = SIZE_MAX then (CKB_INDEX_OUT_OF_BOUND, index)
      else (CKB_SUCCESS, found_index))"

function look_for_poa_cell_from ::
  "transaction \<Rightarrow> byte list \<Rightarrow> source \<Rightarrow> nat \<Rightarrow> nat \<Rightarrow> nat \<Rightarrow> int \<times> nat" where
  "look_for_poa_cell_from tx type_id src index current found_index =
     (if current < SIZE_MAX then
        (let (ret, script) = ckb_load_cell_by_field tx current src CKB_CELL_FIELD_TYPE
         in if ret = CKB_ITEM_MISSING then
              look_for_poa_cell_from tx type_id src index (current + 1) found_index
            else if ret = CKB_SUCCESS then
              (if length script = 85 \<and> memcmp_eq type_id_script_prefix script 53 \<and>
                  memcmp_eq type_id (drop 53 script) 32
               then
                 (if found_index \<noteq> SIZE_MAX then (ERROR_ENCODING, index)
                  else look_for_poa_cell_from tx type_id src index (current + 1) current)
               else look_for_poa_cell_from tx type_id src index (current + 1) found_index)
            else look_for_poa_cell_end found_index index)
      else look_for_poa_cell_end found_index index)"
  by pat_completeness auto
termination
  by (relation "measure (\<lambda>(tx, type_id, src, index, current, found_index).
                   length (cells_of tx src) - current)")
     (auto simp: ckb_load_cell_by_field_def CKB_ITEM_MISSING_def CKB_SUCCESS_def
                 CKB_INDEX_OUT_OF_BOUND_def split: if_splits)

declare look_for_poa_cell_from.simps [simp del]

definition look_for_poa_cell ::
  "transaction \<Rightarrow> byte list \<Rightarrow> source \<Rightarrow> nat \<Rightarrow> int \<times> nat" where
  "look_for_poa_cell tx type_id src index =
     look_for_poa_cell_from tx type_id src index 0 SIZE_MAX"

subsection \<open>main\<close>

text \<open>
  The 22 bytes of a PoA data cell, read as \<open>main\<close> reads them: the subtime at which the
  round began, the subtime of the subblock, the index of the subblock in its round, and
  the index of the aggregator.
\<close>

definition round_initial_subtime :: "byte list \<Rightarrow> 64 word" where
  "round_initial_subtime subblock_info = load_u64 subblock_info 0"

definition subblock_subtime :: "byte list \<Rightarrow> 64 word" where
  "subblock_subtime subblock_info = load_u64 subblock_info 8"

definition subblock_index :: "byte list \<Rightarrow> 32 word" where
  "subblock_index subblock_info = load_u32 subblock_info 16"

definition aggregator_index :: "byte list \<Rightarrow> 16 word" where
  "aggregator_index subblock_info = load_u16 subblock_info 20"

text \<open>
  The block \<^verbatim>\<open>if (ret == CKB_SUCCESS) { ... }\<close> of \<open>main\<close> (normal new blocks) is split in
  three, in the order of the source. \<open>load_new_block\<close> is its first part, up to the
  loading of \<^verbatim>\<open>since\<close>: it returns \<open>Inl\<close> of the code \<open>main\<close> returns there, or \<open>Inr\<close> of
  the values the rest of the block works on (the setup, the two 22-byte buffers and
  \<^verbatim>\<open>since\<close>). The check of the aggregator index against \<^verbatim>\<open>aggregator_number\<close> comes
  before \<^verbatim>\<open>since\<close> is loaded, as in the source.
\<close>

definition load_new_block ::
  "transaction \<Rightarrow> byte list \<Rightarrow> nat \<Rightarrow> int + (PoASetup \<times> byte list \<times> byte list \<times> 64 word)"
  where
  "load_new_block tx args dep_poa_setup_cell_index =
     (let (ret, dep_poa_setup_buffer) =
            ckb_load_cell_data tx dep_poa_setup_cell_index CKB_SOURCE_CELL_DEP
      in if ret \<noteq> CKB_SUCCESS then Inl ret
      else if length dep_poa_setup_buffer > POA_BUFFER_SIZE then Inl ERROR_ENCODING
      else case parse_poa_setup dep_poa_setup_buffer of
        Inl ret \<Rightarrow> Inl ret
      | Inr poa_setup \<Rightarrow>
     (let (ret, input_poa_data_cell_index) =
            look_for_poa_cell tx (drop 32 args) CKB_SOURCE_INPUT SIZE_MAX
      in if ret \<noteq> CKB_SUCCESS then Inl ret
      else
     (let (ret, last_subblock_info) =
            ckb_load_cell_data tx input_poa_data_cell_index CKB_SOURCE_INPUT
      in if ret \<noteq> CKB_SUCCESS then Inl ret
      else if length last_subblock_info \<noteq> 22 then Inl ERROR_ENCODING
      else
     (let (ret, output_poa_data_cell_index) =
            look_for_poa_cell tx (drop 32 args) CKB_SOURCE_OUTPUT SIZE_MAX
      in if ret \<noteq> CKB_SUCCESS then Inl ret
      else
     (let (ret, current_subblock_info) =
            ckb_load_cell_data tx output_poa_data_cell_index CKB_SOURCE_OUTPUT
      in if ret \<noteq> CKB_SUCCESS then Inl ret
      else if length current_subblock_info \<noteq> 22 then Inl ERROR_ENCODING
      else if unat (aggregator_index current_subblock_info)
                \<ge> unat (aggregator_number poa_setup)
        then Inl ERROR_ENCODING
      else
     (let (ret, item) = ckb_load_input_since tx
      in if ret \<noteq> CKB_SUCCESS then Inl ret
      else if length item \<noteq> 8 then Inl ERROR_ENCODING
      else Inr (poa_setup, last_subblock_info, current_subblock_info,
                load_u64 item 0)))))))"

text \<open>
  The steps of a rollover (\<^verbatim>\<open>uint64_t steps\<close>), in 64-bit arithmetic. The modulus is not
  zero where \<open>main\<close> computes it: an \<^verbatim>\<open>aggregator_number\<close> of zero has been rejected by
  the check of the aggregator index.
\<close>

definition rollover_steps :: "16 word \<Rightarrow> byte \<Rightarrow> 16 word \<Rightarrow> 64 word" where
  "rollover_steps current_aggregator_index number last_aggregator_index =
     (let steps = (ucast current_aggregator_index + ucast number
                     - ucast last_aggregator_index) mod ucast number
      in if steps = 0 then ucast number else steps)"

text \<open>
  \<open>check_new_block\<close> is the second part: the checks of \<^verbatim>\<open>since\<close> and of the two modes,
  from \<^verbatim>\<open>if (poa_setup.interval_uses_seconds)\<close> to the end of the \<^verbatim>\<open>else\<close> branch. It
  returns \<^verbatim>\<open>CKB_SUCCESS\<close> where the source goes on to \<open>validate_single_signing\<close>.
\<close>

definition check_new_block :: "PoASetup \<Rightarrow> byte list \<Rightarrow> byte list \<Rightarrow> 64 word \<Rightarrow> int" where
  "check_new_block poa_setup last_subblock_info current_subblock_info since_field =
     (if (if interval_uses_seconds poa_setup then drop_bit 56 since_field \<noteq> 0x40
          else drop_bit 56 since_field \<noteq> 0)
      then ERROR_ENCODING
      else
        let since = since_field AND 0x00FFFFFFFFFFFFFF
        in if subblock_subtime current_subblock_info \<noteq> since then ERROR_ENCODING
        else if since < round_initial_subtime last_subblock_info
                          + ucast (subblock_intervals poa_setup)
        then
          (if round_initial_subtime current_subblock_info
                \<noteq> round_initial_subtime last_subblock_info
             then ERROR_ENCODING
           else if subblock_subtime current_subblock_info
                     < subblock_subtime last_subblock_info
             then ERROR_ENCODING
           else if aggregator_index current_subblock_info
                     \<noteq> aggregator_index last_subblock_info
             then ERROR_ENCODING
           else if subblock_index current_subblock_info
                       \<noteq> subblock_index last_subblock_info + 1
                   \<or> subblock_index current_subblock_info
                       \<ge> subblocks_per_interval poa_setup
             then ERROR_ENCODING
           else CKB_SUCCESS)
        else
          (if round_initial_subtime current_subblock_info
                \<noteq> subblock_subtime current_subblock_info
             then ERROR_ENCODING
           else if subblock_index current_subblock_info \<noteq> 0 then ERROR_ENCODING
           else
             let steps = rollover_steps (aggregator_index current_subblock_info)
                           (aggregator_number poa_setup)
                           (aggregator_index last_subblock_info);
                 duration = steps * ucast (subblock_intervals poa_setup)
             in if since < duration + round_initial_subtime last_subblock_info
                then ERROR_ENCODING
                else CKB_SUCCESS))"

definition new_block :: "transaction \<Rightarrow> byte list \<Rightarrow> nat \<Rightarrow> int" where
  "new_block tx args dep_poa_setup_cell_index =
     (case load_new_block tx args dep_poa_setup_cell_index of
        Inl ret \<Rightarrow> ret
      | Inr (poa_setup, last_subblock_info, current_subblock_info, since_field) \<Rightarrow>
          (let ret = check_new_block poa_setup last_subblock_info current_subblock_info
                       since_field
           in if ret \<noteq> CKB_SUCCESS then ret
              else validate_single_signing tx
                     (drop (unat (aggregator_index current_subblock_info)
                              * unat (identity_size poa_setup))
                        (identities poa_setup))
                     (unat (identity_size poa_setup))))"

text \<open>The rest of \<open>main\<close> after that block: the PoA consensus mode.\<close>

definition consensus_mode :: "transaction \<Rightarrow> byte list \<Rightarrow> int" where
  "consensus_mode tx args =
     (let (ret, input_poa_setup_cell_index) =
            look_for_poa_cell tx args CKB_SOURCE_INPUT SIZE_MAX
      in if ret \<noteq> CKB_SUCCESS then ret
      else
     (let (ret, input_poa_setup_buffer) =
            ckb_load_cell_data tx input_poa_setup_cell_index CKB_SOURCE_INPUT
      in if ret \<noteq> CKB_SUCCESS then ret
      else if length input_poa_setup_buffer > POA_BUFFER_SIZE then ERROR_ENCODING
      else case parse_poa_setup input_poa_setup_buffer of
        Inl ret \<Rightarrow> ret
      | Inr poa_setup \<Rightarrow>
     (let (ret, output_poa_setup_cell_index) =
            look_for_poa_cell tx args CKB_SOURCE_OUTPUT SIZE_MAX
      in if ret \<noteq> CKB_SUCCESS then ret
      else
     (let (ret, output_poa_setup_buffer) =
            ckb_load_cell_data tx output_poa_setup_cell_index CKB_SOURCE_OUTPUT
      in if ret \<noteq> CKB_SUCCESS then ret
      else if length output_poa_setup_buffer > POA_BUFFER_SIZE then ERROR_ENCODING
      else case parse_poa_setup output_poa_setup_buffer of
        Inl ret \<Rightarrow> ret
      | Inr new_poa_setup \<Rightarrow>
          validate_consensus_signing tx (identities poa_setup)
            (unat (identity_size poa_setup)) (aggregator_number poa_setup)
            (aggregator_change_threshold poa_setup)))))"

text \<open>
  \<open>main\<close>. The script is loaded by \<^verbatim>\<open>ckb_checked_load_script\<close> and read by the molecule
  reader; the transaction carries the return code of the first, whether
  \<^verbatim>\<open>MolReader_Script_verify\<close> answers \<^verbatim>\<open>MOL_OK\<close>, and the raw bytes of the script's args.
\<close>

definition main :: "transaction \<Rightarrow> int" where
  "main tx =
     (if ckb_load_cell tx 1 CKB_SOURCE_GROUP_INPUT \<noteq> CKB_INDEX_OUT_OF_BOUND
        then ERROR_TRANSACTION
      else if ckb_load_cell tx 1 CKB_SOURCE_GROUP_OUTPUT \<noteq> CKB_INDEX_OUT_OF_BOUND
        then ERROR_TRANSACTION
      else if tx_script_ret tx \<noteq> CKB_SUCCESS then tx_script_ret tx
      else if \<not> tx_script_verified tx then ERROR_ENCODING
      else
        let args = tx_script_args tx
        in if length args \<noteq> 64 then ERROR_ENCODING
        else
          (let (ret, dep_poa_setup_cell_index) =
                 look_for_poa_cell tx args CKB_SOURCE_CELL_DEP SIZE_MAX
           in if ret \<noteq> CKB_INDEX_OUT_OF_BOUND \<and> ret \<noteq> CKB_SUCCESS then ret
              else if ret = CKB_SUCCESS then new_block tx args dep_poa_setup_cell_index
              else consensus_mode tx args))"

section \<open>Notions used in the statements\<close>

text \<open>
  Some input of the transaction has a lock hash that can be read and that equals, on the
  first \<open>id_size\<close> bytes, the identity with index \<open>i\<close> of the buffer.
\<close>

definition input_matches :: "transaction \<Rightarrow> byte list \<Rightarrow> nat \<Rightarrow> nat \<Rightarrow> bool" where
  "input_matches tx identity_buffer id_size i =
     (\<exists>c \<in> set (tx_inputs tx).
        fst (cell_lock_hash c) = CKB_SUCCESS
        \<and> memcmp_eq (take 32 (snd (cell_lock_hash c)))
              (drop (i * id_size) identity_buffer) id_size)"

section \<open>Example transactions\<close>

text \<open>
  Concrete transactions on which the theorems below are exercised. The setup cell holds
  the configuration of the specification's examples: subtime in seconds, identities of
  one byte, three aggregators \<open>0xA0\<close>, \<open>0xA1\<close>, \<open>0xA2\<close>, a change threshold of 2, an
  interval of 100 and at most 5 subblocks per interval.
\<close>

definition example_config_ref :: "byte list" where
  "example_config_ref = replicate 32 1"

definition example_state_ref :: "byte list" where
  "example_state_ref = replicate 32 2"

definition example_lock_hash :: "byte \<Rightarrow> byte list" where
  "example_lock_hash b = b # replicate 31 0"

text \<open>A cell whose type script is the type id script of \<open>type_id\<close>.\<close>

definition example_cell :: "byte list \<Rightarrow> byte list \<Rightarrow> byte \<Rightarrow> cell" where
  "example_cell type_id data b =
     \<lparr> cell_type = (CKB_SUCCESS, type_id_script_prefix @ type_id),
       cell_lock_hash = (CKB_SUCCESS, example_lock_hash b),
       cell_data = (CKB_SUCCESS, data) \<rparr>"

definition example_setup :: "byte list" where
  "example_setup = [1, 1, 3, 2, 100, 0, 0, 0, 5, 0, 0, 0, 0xA0, 0xA1, 0xA2]"

definition example_poa_setup :: PoASetup where
  "example_poa_setup =
     \<lparr> source_data = example_setup, source_length = 15,
       interval_uses_seconds = True, identity_size = 1, aggregator_number = 3,
       aggregator_change_threshold = 2, subblock_intervals = 100,
       subblocks_per_interval = 5, identities = [0xA0, 0xA1, 0xA2] \<rparr>"

text \<open>
  PoA data cells: the round began at 1000 and its first subblock was issued by
  aggregator 0 at 1000 (\<open>example_last_info\<close>); the second subblock of that round at 1050
  (\<open>example_same_round_info\<close>); the first subblock of aggregator 1 at 1105
  (\<open>example_rollover_info\<close>); a last subblock that names aggregator 5, which the setup
  does not have (\<open>example_stale_info\<close>); the first subblock of aggregator 1 at 1300
  (\<open>example_late_info\<close>).
\<close>

definition example_last_info :: "byte list" where
  "example_last_info =
     [0xE8, 3, 0, 0, 0, 0, 0, 0, 0xE8, 3, 0, 0, 0, 0, 0, 0, 0, 0, 0, 0, 0, 0]"

definition example_same_round_info :: "byte list" where
  "example_same_round_info =
     [0xE8, 3, 0, 0, 0, 0, 0, 0, 0x1A, 4, 0, 0, 0, 0, 0, 0, 1, 0, 0, 0, 0, 0]"

definition example_rollover_info :: "byte list" where
  "example_rollover_info =
     [0x51, 4, 0, 0, 0, 0, 0, 0, 0x51, 4, 0, 0, 0, 0, 0, 0, 0, 0, 0, 0, 1, 0]"

definition example_stale_info :: "byte list" where
  "example_stale_info =
     [0xE8, 3, 0, 0, 0, 0, 0, 0, 0xE8, 3, 0, 0, 0, 0, 0, 0, 0, 0, 0, 0, 5, 0]"

definition example_late_info :: "byte list" where
  "example_late_info =
     [0x14, 5, 0, 0, 0, 0, 0, 0, 0x14, 5, 0, 0, 0, 0, 0, 0, 0, 0, 0, 0, 1, 0]"

text \<open>
  A block-production transaction: the setup cell among the cell deps, one PoA data cell
  consumed and one produced, both locked by the signer whose lock hash starts with \<open>b\<close>,
  and the since field of the consumed input.
\<close>

definition example_new_block_tx ::
  "byte list \<Rightarrow> byte list \<Rightarrow> byte list \<Rightarrow> byte \<Rightarrow> transaction" where
  "example_new_block_tx last_info current_info since_bytes b =
     \<lparr> tx_inputs = [example_cell example_state_ref last_info b],
       tx_outputs = [example_cell example_state_ref current_info b],
       tx_cell_deps = [example_cell example_config_ref example_setup b],
       tx_group_inputs = 1,
       tx_group_outputs = 0,
       tx_group_since = (CKB_SUCCESS, since_bytes),
       tx_script_ret = CKB_SUCCESS,
       tx_script_verified = True,
       tx_script_args = example_config_ref @ example_state_ref \<rparr>"

definition example_same_round_tx :: transaction where
  "example_same_round_tx =
     example_new_block_tx example_last_info example_same_round_info
       [0x1A, 4, 0, 0, 0, 0, 0, 0x40] 0xA0"

definition example_rollover_tx :: transaction where
  "example_rollover_tx =
     example_new_block_tx example_last_info example_rollover_info
       [0x51, 4, 0, 0, 0, 0, 0, 0x40] 0xA1"

definition example_stale_index_tx :: transaction where
  "example_stale_index_tx =
     example_new_block_tx example_stale_info example_late_info
       [0x14, 5, 0, 0, 0, 0, 0, 0x40] 0xA1"

text \<open>
  Inputs for the signing checks: 33 identities of one byte, \<open>0\<close> to \<open>32\<close>, and input
  cells without a type script whose lock hash starts with a given byte.
\<close>

definition example_identities :: "byte list" where
  "example_identities =
     [0, 1, 2, 3, 4, 5, 6, 7, 8, 9, 10, 11, 12, 13, 14, 15,
      16, 17, 18, 19, 20, 21, 22, 23, 24, 25, 26, 27, 28, 29, 30, 31, 32]"

definition example_signer :: "byte \<Rightarrow> cell" where
  "example_signer b =
     \<lparr> cell_type = (CKB_ITEM_MISSING, []),
       cell_lock_hash = (CKB_SUCCESS, example_lock_hash b),
       cell_data = (CKB_SUCCESS, []) \<rparr>"

definition example_signers_tx :: "cell list \<Rightarrow> transaction" where
  "example_signers_tx signers =
     \<lparr> tx_inputs = signers,
       tx_outputs = [],
       tx_cell_deps = [],
       tx_group_inputs = 1,
       tx_group_outputs = 0,
       tx_group_since = (CKB_SUCCESS, [0, 0, 0, 0, 0, 0, 0, 0]),
       tx_script_ret = CKB_SUCCESS,
       tx_script_verified = True,
       tx_script_args = example_config_ref @ example_state_ref \<rparr>"

text \<open>
  A change of the setup: the setup cell with the 33 identities and a threshold of 2 is
  consumed and produced again, no cell dep carries it, and the two inputs are locked by
  the signer whose lock hash starts with \<open>32\<close>.
\<close>

definition example_wide_setup :: "byte list" where
  "example_wide_setup = [0, 1, 33, 2, 100, 0, 0, 0, 5, 0, 0, 0] @ example_identities"

definition example_change_tx :: transaction where
  "example_change_tx =
     \<lparr> tx_inputs = [example_cell example_config_ref example_wide_setup 32,
                    example_signer 32],
       tx_outputs = [example_cell example_config_ref example_wide_setup 32],
       tx_cell_deps = [],
       tx_group_inputs = 1,
       tx_group_outputs = 0,
       tx_group_since = (CKB_SUCCESS, [0, 0, 0, 0, 0, 0, 0, 0]),
       tx_script_ret = CKB_SUCCESS,
       tx_script_verified = True,
       tx_script_args = example_config_ref @ example_state_ref \<rparr>"

definition example_wrap_tx :: transaction where
  "example_wrap_tx = example_signers_tx (replicate 256 (example_signer 32))"

text \<open>A cell whose type script cannot be read: the read fails with the code 4.\<close>

definition example_unreadable_cell :: cell where
  "example_unreadable_cell =
     \<lparr> cell_type = (4, []),
       cell_lock_hash = (CKB_SUCCESS, example_lock_hash 0xA0),
       cell_data = (CKB_SUCCESS, []) \<rparr>"

text \<open>
  A last subblock with the largest index of 32 bits, and the subblock of index 0 that
  follows it in the same round at 1050.
\<close>

definition example_max_index_info :: "byte list" where
  "example_max_index_info =
     [0xE8, 3, 0, 0, 0, 0, 0, 0, 0xE8, 3, 0, 0, 0, 0, 0, 0, 0xFF, 0xFF, 0xFF, 0xFF, 0, 0]"

definition example_zero_index_info :: "byte list" where
  "example_zero_index_info =
     [0xE8, 3, 0, 0, 0, 0, 0, 0, 0x1A, 4, 0, 0, 0, 0, 0, 0, 0, 0, 0, 0, 0, 0]"

definition example_index_wrap_tx :: transaction where
  "example_index_wrap_tx =
     example_new_block_tx example_max_index_info example_zero_index_info
       [0x1A, 4, 0, 0, 0, 0, 0, 0x40] 0xA0"

text \<open>
  A last subblock whose round began at \<open>2 ^ 64 - 50\<close>, so that the 64-bit sum of that start
  and the interval of 100 is 50, and the first subblock of aggregator 1 at 60.
\<close>

definition example_late_round_info :: "byte list" where
  "example_late_round_info =
     [0xCE, 0xFF, 0xFF, 0xFF, 0xFF, 0xFF, 0xFF, 0xFF, 0xCE, 0xFF, 0xFF, 0xFF, 0xFF, 0xFF,
      0xFF, 0xFF, 0, 0, 0, 0, 0, 0]"

definition example_restart_info :: "byte list" where
  "example_restart_info =
     [60, 0, 0, 0, 0, 0, 0, 0, 60, 0, 0, 0, 0, 0, 0, 0, 0, 0, 0, 0, 1, 0]"

definition example_sum_wrap_tx :: transaction where
  "example_sum_wrap_tx =
     example_new_block_tx example_late_round_info example_restart_info
       [60, 0, 0, 0, 0, 0, 0, 0x40] 0xA1"







section \<open>Evaluation\<close>

lemmas return_codes =
  CKB_SUCCESS_def CKB_INDEX_OUT_OF_BOUND_def CKB_ITEM_MISSING_def
  ERROR_ENCODING_def ERROR_TRANSACTION_def

lemmas example_defs =
  example_same_round_tx_def example_rollover_tx_def
  example_new_block_tx_def example_cell_def example_setup_def example_poa_setup_def
  example_config_ref_def example_state_ref_def example_lock_hash_def
  example_last_info_def example_same_round_info_def example_rollover_info_def
  example_identities_def example_signer_def example_signers_tx_def

lemmas eval_defs =
  return_codes SIZE_MAX_def POA_BUFFER_SIZE_def IDENTITY_SIZE_def
  ckb_load_cell_def ckb_load_cell_by_field_def ckb_load_cell_data_def
  ckb_load_input_since_def type_id_script_prefix_def memcmp_eq_def
  look_for_poa_cell_def look_for_poa_cell_from.simps look_for_poa_cell_end_def
  parse_poa_setup_def load_u16_def load_u32_def load_u64_def
  round_initial_subtime_def subblock_subtime_def subblock_index_def aggregator_index_def
  word_le_nat_alt word_less_nat_alt

lemmas main_eval =
  main_def new_block_def load_new_block_def check_new_block_def rollover_steps_def
  validate_single_signing_def validate_single_signing_from.simps

lemma example_info_fields:
  "round_initial_subtime example_last_info = 1000"
  "subblock_subtime example_last_info = 1000"
  "subblock_index example_last_info = 0"
  "aggregator_index example_last_info = 0"
  "round_initial_subtime example_same_round_info = 1000"
  "subblock_subtime example_same_round_info = 1050"
  "subblock_index example_same_round_info = 1"
  "aggregator_index example_same_round_info = 0"
  "round_initial_subtime example_rollover_info = 1105"
  "subblock_subtime example_rollover_info = 1105"
  "subblock_index example_rollover_info = 0"
  "aggregator_index example_rollover_info = 1"
  by (simp_all add: example_defs eval_defs)

lemma example_same_round_mode:
  "look_for_poa_cell example_same_round_tx (tx_script_args example_same_round_tx)
     CKB_SOURCE_CELL_DEP SIZE_MAX = (CKB_SUCCESS, 0)"
  by (simp add: example_defs eval_defs)

lemma example_same_round_load:
  "load_new_block example_same_round_tx (tx_script_args example_same_round_tx) 0 =
     Inr (example_poa_setup, example_last_info, example_same_round_info,
          0x400000000000041A)"
  by (simp add: load_new_block_def example_defs eval_defs)

lemma example_same_round_main: "main example_same_round_tx = CKB_SUCCESS"
  by (simp add: main_eval example_defs eval_defs)

lemma example_rollover_mode:
  "look_for_poa_cell example_rollover_tx (tx_script_args example_rollover_tx)
     CKB_SOURCE_CELL_DEP SIZE_MAX = (CKB_SUCCESS, 0)"
  by (simp add: example_defs eval_defs)

lemma example_rollover_load:
  "load_new_block example_rollover_tx (tx_script_args example_rollover_tx) 0 =
     Inr (example_poa_setup, example_last_info, example_rollover_info,
          0x4000000000000451)"
  by (simp add: load_new_block_def example_defs eval_defs)

lemma example_rollover_main: "main example_rollover_tx = CKB_SUCCESS"
  by (simp add: main_eval example_defs eval_defs)

section \<open>Decoding the setup\<close>

lemma take4_drop:
  "k + 4 \<le> length buf \<Longrightarrow>
   take 4 (drop k buf) = [buf ! k, buf ! (k + 1), buf ! (k + 2), buf ! (k + 3)]"
  by (simp add: list_eq_iff_nth_eq nth_Cons' numeral_eq_Suc less_Suc_eq)

lemma load_u32_bytes:
  "k + 4 \<le> length buf \<Longrightarrow>
   load_u32 buf k =
     of_nat (unat (buf ! k) + 2 ^ 8 * unat (buf ! (k + 1)) + 2 ^ 16 * unat (buf ! (k + 2))
             + 2 ^ 24 * unat (buf ! (k + 3)))"
  by (simp add: load_u32_def take4_drop)

text \<open>
  C6: decoding a setup fails with \<^verbatim>\<open>ERROR_ENCODING\<close> exactly when the buffer has fewer
  than 12 bytes, or the identity size (byte 1) exceeds 32, or the change threshold
  (byte 3) exceeds the aggregator number (byte 2), or the length is not
  \<open>12 + identity_size * aggregator_number\<close>; every other buffer decodes into the record
  with the layout of the specification: the flag in the lowest bit of byte 0, the three
  one-byte fields, the two 32-bit little-endian fields at offsets 4 and 8, and the
  identities from offset 12 on.
\<close>

theorem parse_poa_setup_result:
  "parse_poa_setup buf =
     (if length buf < 12 \<or> 32 < unat (buf ! 1) \<or> buf ! 2 < buf ! 3
         \<or> length buf \<noteq> 12 + unat (buf ! 1) * unat (buf ! 2)
      then Inl ERROR_ENCODING
      else Inr \<lparr> source_data = buf,
                 source_length = length buf,
                 interval_uses_seconds = bit (buf ! 0) 0,
                 identity_size = buf ! 1,
                 aggregator_number = buf ! 2,
                 aggregator_change_threshold = buf ! 3,
                 subblock_intervals =
                   of_nat (unat (buf ! 4) + 2 ^ 8 * unat (buf ! 5) + 2 ^ 16 * unat (buf ! 6)
                           + 2 ^ 24 * unat (buf ! 7)),
                 subblocks_per_interval =
                   of_nat (unat (buf ! 8) + 2 ^ 8 * unat (buf ! 9) + 2 ^ 16 * unat (buf ! 10)
                           + 2 ^ 24 * unat (buf ! 11)),
                 identities = drop 12 buf \<rparr>)"
proof (cases "length buf < 12")
  case True
  then show ?thesis by (simp add: parse_poa_setup_def)
next
  case False
  then have len: "4 + 4 \<le> length buf" "8 + 4 \<le> length buf" by simp_all
  have flag: "((buf ! 0) AND 1 = 1) = bit (buf ! 0) 0"
    by (simp add: and_one_eq bit_0 mod_2_eq_odd)
  show ?thesis
    using False load_u32_bytes [OF len(1)] load_u32_bytes [OF len(2)]
    by (simp add: parse_poa_setup_def IDENTITY_SIZE_def flag Let_def)
qed

theorem parse_poa_setup_result_witness:
  "parse_poa_setup example_setup = Inr example_poa_setup
   \<and> parse_poa_setup (butlast example_setup) = Inl ERROR_ENCODING"
  using parse_poa_setup_result [of example_setup]
        parse_poa_setup_result [of "butlast example_setup"]
  by (simp add: example_setup_def example_poa_setup_def word_less_nat_alt)

section \<open>The script group\<close>

text \<open>
  C7: before anything else is looked at, \<open>main\<close> rejects (with \<^verbatim>\<open>ERROR_TRANSACTION\<close>)
  every transaction that has more than one input cell in the script's own group, or more
  than one output cell in it, whatever the rest of the transaction holds.
\<close>

theorem main_rejects_second_group_cell:
  "1 < tx_group_inputs tx \<or> 1 < tx_group_outputs tx \<Longrightarrow> main tx = ERROR_TRANSACTION"
  by (auto simp: main_def ckb_load_cell_def CKB_SUCCESS_def CKB_INDEX_OUT_OF_BOUND_def)

theorem main_rejects_second_group_cell_witness:
  "main example_same_round_tx = CKB_SUCCESS
   \<and> main (example_same_round_tx \<lparr> tx_group_inputs := 2 \<rparr>) = ERROR_TRANSACTION
   \<and> main (example_same_round_tx \<lparr> tx_group_outputs := 2 \<rparr>) = ERROR_TRANSACTION"
  using main_rejects_second_group_cell [of "example_same_round_tx \<lparr> tx_group_inputs := 2 \<rparr>"]
        main_rejects_second_group_cell [of "example_same_round_tx \<lparr> tx_group_outputs := 2 \<rparr>"]
        example_same_round_main
  by simp

section \<open>Normal new blocks\<close>

text \<open>
  When the setup cell is among the cell deps, \<open>main\<close> is \<open>new_block\<close>; when
  \<open>new_block\<close> accepts, the values it loaded passed \<open>check_new_block\<close> and the signer
  check.
\<close>

lemma main_new_block:
  assumes "main tx = CKB_SUCCESS"
    and "look_for_poa_cell tx (tx_script_args tx) CKB_SOURCE_CELL_DEP SIZE_MAX
           = (CKB_SUCCESS, dep)"
  shows "new_block tx (tx_script_args tx) dep = CKB_SUCCESS"
  using assms by (simp add: main_def Let_def return_codes split: if_splits)

lemma new_block_accepts:
  assumes "new_block tx args dep = CKB_SUCCESS"
    and "load_new_block tx args dep = Inr (poa_setup, last_info, current_info, since_field)"
  shows "check_new_block poa_setup last_info current_info since_field = CKB_SUCCESS"
    and "validate_single_signing tx
           (drop (unat (aggregator_index current_info) * unat (identity_size poa_setup))
              (identities poa_setup))
           (unat (identity_size poa_setup)) = CKB_SUCCESS"
  using assms by (simp_all add: new_block_def Let_def split: if_splits)

text \<open>
  Every code \<open>load_new_block\<close> returns is an error, so an accepted transaction has
  loaded its values.
\<close>

lemma load_new_block_error:
  "load_new_block tx args dep = Inl ret \<Longrightarrow> ret \<noteq> CKB_SUCCESS"
  by (auto simp: load_new_block_def parse_poa_setup_def Let_def return_codes
           split: if_splits sum.splits prod.splits)

lemma new_block_loaded:
  assumes "new_block tx args dep = CKB_SUCCESS"
  shows "\<exists>poa_setup last_info current_info since_field.
           load_new_block tx args dep = Inr (poa_setup, last_info, current_info, since_field)"
proof (cases "load_new_block tx args dep")
  case (Inl ret)
  with assms load_new_block_error [OF Inl] show ?thesis by (simp add: new_block_def)
next
  case (Inr v)
  then show ?thesis by (cases v) auto
qed

lemma since_magnitude: "w AND 0x00FFFFFFFFFFFFFF = take_bit 56 w" for w :: "64 word"
  by (simp add: take_bit_eq_mask mask_eq_exp_minus_1)

lemma load_new_block_since:
  assumes "load_new_block tx args dep = Inr (poa_setup, last_info, current_info, since_field)"
  shows "fst (ckb_load_input_since tx) = CKB_SUCCESS
       \<and> length (snd (ckb_load_input_since tx)) = 8
       \<and> since_field = load_u64 (snd (ckb_load_input_since tx)) 0"
  using assms
  by (auto simp: load_new_block_def Let_def split: if_splits sum.splits prod.splits)

lemma load_new_block_index:
  assumes "load_new_block tx args dep = Inr (poa_setup, last_info, current_info, since_field)"
  shows "unat (aggregator_index current_info) < unat (aggregator_number poa_setup)"
  using assms
  by (auto simp: load_new_block_def Let_def split: if_splits sum.splits prod.splits)

lemma check_new_block_since:
  assumes "check_new_block poa_setup last_info current_info since_field = CKB_SUCCESS"
  shows "drop_bit 56 since_field = (if interval_uses_seconds poa_setup then 0x40 else 0)"
    and "since_field AND 0x00FFFFFFFFFFFFFF = subblock_subtime current_info"
  using assms
  by (auto simp: check_new_block_def Let_def return_codes split: if_splits)

lemma check_new_block_same_round:
  assumes "check_new_block poa_setup last_info current_info since_field = CKB_SUCCESS"
    and "since_field AND 0x00FFFFFFFFFFFFFF
           < round_initial_subtime last_info + ucast (subblock_intervals poa_setup)"
  shows "round_initial_subtime current_info = round_initial_subtime last_info
       \<and> subblock_subtime last_info \<le> subblock_subtime current_info
       \<and> aggregator_index current_info = aggregator_index last_info
       \<and> subblock_index current_info = subblock_index last_info + 1
       \<and> subblock_index current_info < subblocks_per_interval poa_setup"
  using assms
  by (simp add: check_new_block_def Let_def return_codes not_less not_le split: if_splits)

lemma check_new_block_rollover:
  assumes "check_new_block poa_setup last_info current_info since_field = CKB_SUCCESS"
    and "\<not> since_field AND 0x00FFFFFFFFFFFFFF
           < round_initial_subtime last_info + ucast (subblock_intervals poa_setup)"
  shows "round_initial_subtime current_info = subblock_subtime current_info
       \<and> subblock_index current_info = 0
       \<and> rollover_steps (aggregator_index current_info) (aggregator_number poa_setup)
             (aggregator_index last_info) * ucast (subblock_intervals poa_setup)
           + round_initial_subtime last_info
           \<le> since_field AND 0x00FFFFFFFFFFFFFF"
  using assms
  by (simp add: check_new_block_def Let_def return_codes not_less not_le split: if_splits)


text \<open>
  The unsigned value of the steps over the integers: the difference is reduced modulo
  \<open>2 ^ 64\<close> before the remainder is taken.
\<close>

lemma uint_ucast_up:
  "LENGTH('a) \<le> LENGTH('b) \<Longrightarrow> uint (ucast w :: 'b::len word) = uint w"
  for w :: "'a::len word"
  by (simp add: uint_up_ucast is_up)



text \<open>
  C5: in the block-production mode \<open>main\<close> reads the since field of the first input of
  its group and accepts only if the field has 8 bytes, its two top bits name the lock the
  setup asks for (\<open>01\<close>, an absolute timestamp, when \<open>interval_uses_seconds\<close> is set; \<open>00\<close>,
  an absolute block number, otherwise), and its low 56 bits equal the subtime of the
  produced subblock. The script compares the whole top byte (with \<open>0x40\<close> or \<open>0\<close>), which
  is stated as well.
\<close>

theorem new_block_since:
  assumes "main tx = CKB_SUCCESS"
    and "look_for_poa_cell tx (tx_script_args tx) CKB_SOURCE_CELL_DEP SIZE_MAX
           = (CKB_SUCCESS, dep)"
    and "load_new_block tx (tx_script_args tx) dep
           = Inr (poa_setup, last_info, current_info, since_field)"
  shows "fst (ckb_load_input_since tx) = CKB_SUCCESS
       \<and> length (snd (ckb_load_input_since tx)) = 8
       \<and> since_field = load_u64 (snd (ckb_load_input_since tx)) 0
       \<and> drop_bit 62 since_field = (if interval_uses_seconds poa_setup then 1 else 0)
       \<and> drop_bit 56 since_field = (if interval_uses_seconds poa_setup then 0x40 else 0)
       \<and> take_bit 56 since_field = subblock_subtime current_info"
proof -
  have chk: "check_new_block poa_setup last_info current_info since_field = CKB_SUCCESS"
    using new_block_accepts(1) [OF main_new_block [OF assms(1,2)] assms(3)] .
  have top: "drop_bit 56 since_field = (if interval_uses_seconds poa_setup then 0x40 else 0)"
    using check_new_block_since(1) [OF chk] .
  have "drop_bit 62 since_field = drop_bit 6 (drop_bit 56 since_field)"
    by simp
  then have two: "drop_bit 62 since_field = (if interval_uses_seconds poa_setup then 1 else 0)"
    by (simp only: top) (simp add: drop_bit_eq_div)
  show ?thesis
    using load_new_block_since [OF assms(3)] top two check_new_block_since(2) [OF chk]
    by (simp add: since_magnitude)
qed

theorem new_block_since_witness:
  "main example_same_round_tx = CKB_SUCCESS
   \<and> ckb_load_input_since example_same_round_tx
       = (CKB_SUCCESS, [0x1A, 4, 0, 0, 0, 0, 0, 0x40])
   \<and> interval_uses_seconds example_poa_setup
   \<and> drop_bit 62 (0x400000000000041A :: 64 word) = 1
   \<and> take_bit 56 (0x400000000000041A :: 64 word) = 1050
   \<and> subblock_subtime example_same_round_info = 1050"
proof -
  note t = new_block_since [OF example_same_round_main example_same_round_mode
                               example_same_round_load]
  have a: "ckb_load_input_since example_same_round_tx
             = (CKB_SUCCESS, [0x1A, 4, 0, 0, 0, 0, 0, 0x40])"
    by (simp add: ckb_load_input_since_def example_defs)
  have b: "interval_uses_seconds example_poa_setup"
    by (simp add: example_poa_setup_def)
  have c: "drop_bit 62 (0x400000000000041A :: 64 word) = 1"
    using t b by simp
  have d: "take_bit 56 (0x400000000000041A :: 64 word) = 1050"
    using t by (simp add: example_info_fields)
  show ?thesis
    using example_same_round_main a b c d example_info_fields(6) by (intro conjI)
qed

lemmas example_index_wrap_defs =
  example_index_wrap_tx_def example_max_index_info_def example_zero_index_info_def
  example_sum_wrap_tx_def example_late_round_info_def example_restart_info_def

lemma example_index_wrap_fields:
  "round_initial_subtime example_max_index_info = 1000"
  "subblock_index example_max_index_info = 0xFFFFFFFF"
  "subblock_index example_zero_index_info = 0"
  "round_initial_subtime example_late_round_info = 0xFFFFFFFFFFFFFFCE"
  "round_initial_subtime example_restart_info = 60"
  by (simp_all add: example_index_wrap_defs eval_defs)

text \<open>
  C4: in the block-production mode, when the since value is below the start of the last
  round plus the interval (the issuing aggregator goes on), \<open>main\<close> accepts only if the
  produced subblock keeps the round's initial subtime, its subtime is not below the last
  subblock's, it names the same aggregator, its index is the last index plus one, and
  that index is below \<open>subblocks_per_interval\<close>. The script adds in unsigned machine
  arithmetic: the start of the last round plus the interval is a sum modulo \<open>2 ^ 64\<close>,
  and the last index plus one is a sum modulo \<open>2 ^ 32\<close>. The theorem states the
  conditions over the integers with these two reductions written out. Without them the
  property does not hold: \<open>main\<close> accepts \<open>example_index_wrap_tx\<close>, where the index 0
  follows the index \<open>0xFFFFFFFF\<close>, and \<open>example_sum_wrap_tx\<close>, where the since value 60
  is below the start \<open>2 ^ 64 - 50\<close> of the last round plus the interval and the produced
  subblock begins a new round.
\<close>

theorem new_block_same_round_wrapping:
  assumes "main tx = CKB_SUCCESS"
    and "look_for_poa_cell tx (tx_script_args tx) CKB_SOURCE_CELL_DEP SIZE_MAX
           = (CKB_SUCCESS, dep)"
    and "load_new_block tx (tx_script_args tx) dep
           = Inr (poa_setup, last_info, current_info, since_field)"
    and same: "uint (take_bit 56 since_field)
                 < (uint (round_initial_subtime last_info)
                    + uint (subblock_intervals poa_setup)) mod 2 ^ 64"
  shows "uint (round_initial_subtime current_info) = uint (round_initial_subtime last_info)
       \<and> uint (subblock_subtime last_info) \<le> uint (subblock_subtime current_info)
       \<and> uint (aggregator_index current_info) = uint (aggregator_index last_info)
       \<and> uint (subblock_index current_info) = (uint (subblock_index last_info) + 1) mod 2 ^ 32
       \<and> uint (subblock_index current_info) < uint (subblocks_per_interval poa_setup)"
proof -
  have "uint (round_initial_subtime last_info + ucast (subblock_intervals poa_setup))
          = (uint (round_initial_subtime last_info)
             + uint (subblock_intervals poa_setup)) mod 2 ^ 64"
    by (simp add: uint_word_ariths uint_ucast_up)
  with same have cond: "since_field AND 0x00FFFFFFFFFFFFFF
                < round_initial_subtime last_info + ucast (subblock_intervals poa_setup)"
    by (simp add: word_less_def since_magnitude)
  note w = check_new_block_same_round
             [OF new_block_accepts(1) [OF main_new_block [OF assms(1,2)] assms(3)] cond]
  have "uint (subblock_index last_info + 1) = (uint (subblock_index last_info) + 1) mod 2 ^ 32"
    by (simp add: uint_word_ariths)
  with w show ?thesis
    by (metis word_le_def word_less_def)
qed

theorem new_block_same_round_wrapping_witness:
  "main example_same_round_tx = CKB_SUCCESS
   \<and> uint (take_bit 56 (0x400000000000041A :: 64 word))
       < (uint (round_initial_subtime example_last_info)
          + uint (subblock_intervals example_poa_setup)) mod 2 ^ 64
   \<and> uint (round_initial_subtime example_same_round_info)
       = uint (round_initial_subtime example_last_info)
   \<and> uint (subblock_subtime example_last_info)
       \<le> uint (subblock_subtime example_same_round_info)
   \<and> uint (aggregator_index example_same_round_info)
       = uint (aggregator_index example_last_info)
   \<and> uint (subblock_index example_same_round_info)
       = (uint (subblock_index example_last_info) + 1) mod 2 ^ 32
   \<and> uint (subblock_index example_same_round_info)
       < uint (subblocks_per_interval example_poa_setup)"
proof -
  have same: "uint (take_bit 56 (0x400000000000041A :: 64 word))
                < (uint (round_initial_subtime example_last_info)
                   + uint (subblock_intervals example_poa_setup)) mod 2 ^ 64"
    by (simp add: example_info_fields example_poa_setup_def)
  note t = new_block_same_round_wrapping
             [OF example_same_round_main example_same_round_mode example_same_round_load same]
  from t have
    "uint (round_initial_subtime example_same_round_info)
       = uint (round_initial_subtime example_last_info)"
    "uint (subblock_subtime example_last_info) \<le> uint (subblock_subtime example_same_round_info)"
    "uint (aggregator_index example_same_round_info) = uint (aggregator_index example_last_info)"
    "uint (subblock_index example_same_round_info)
       = (uint (subblock_index example_last_info) + 1) mod 2 ^ 32"
    "uint (subblock_index example_same_round_info)
       < uint (subblocks_per_interval example_poa_setup)"
    by blast+
  with example_same_round_main same show ?thesis by (intro conjI)
qed

theorem new_block_same_round_counterexample:
  "main example_index_wrap_tx = CKB_SUCCESS
   \<and> look_for_poa_cell example_index_wrap_tx (tx_script_args example_index_wrap_tx)
         CKB_SOURCE_CELL_DEP SIZE_MAX = (CKB_SUCCESS, 0)
   \<and> load_new_block example_index_wrap_tx (tx_script_args example_index_wrap_tx) 0 =
         Inr (example_poa_setup, example_max_index_info, example_zero_index_info,
              0x400000000000041A)
   \<and> uint (take_bit 56 (0x400000000000041A :: 64 word))
       < uint (round_initial_subtime example_max_index_info)
         + uint (subblock_intervals example_poa_setup)
   \<and> uint (subblock_index example_zero_index_info)
       \<noteq> uint (subblock_index example_max_index_info) + 1
   \<and> main example_sum_wrap_tx = CKB_SUCCESS
   \<and> look_for_poa_cell example_sum_wrap_tx (tx_script_args example_sum_wrap_tx)
         CKB_SOURCE_CELL_DEP SIZE_MAX = (CKB_SUCCESS, 0)
   \<and> load_new_block example_sum_wrap_tx (tx_script_args example_sum_wrap_tx) 0 =
         Inr (example_poa_setup, example_late_round_info, example_restart_info,
              0x400000000000003C)
   \<and> uint (take_bit 56 (0x400000000000003C :: 64 word))
       < uint (round_initial_subtime example_late_round_info)
         + uint (subblock_intervals example_poa_setup)
   \<and> uint (round_initial_subtime example_restart_info)
       \<noteq> uint (round_initial_subtime example_late_round_info)"
proof -
  have a1: "main example_index_wrap_tx = CKB_SUCCESS"
    by (simp add: main_eval example_index_wrap_defs example_defs eval_defs)
  have a2: "look_for_poa_cell example_index_wrap_tx (tx_script_args example_index_wrap_tx)
              CKB_SOURCE_CELL_DEP SIZE_MAX = (CKB_SUCCESS, 0)"
    by (simp add: example_index_wrap_defs example_defs eval_defs)
  have a3: "load_new_block example_index_wrap_tx (tx_script_args example_index_wrap_tx) 0 =
              Inr (example_poa_setup, example_max_index_info, example_zero_index_info,
                   0x400000000000041A)"
    by (simp add: load_new_block_def example_index_wrap_defs example_defs eval_defs)
  have a4: "uint (take_bit 56 (0x400000000000041A :: 64 word))
              < uint (round_initial_subtime example_max_index_info)
                + uint (subblock_intervals example_poa_setup)"
    by (simp add: example_index_wrap_fields example_poa_setup_def)
  have a5: "uint (subblock_index example_zero_index_info)
              \<noteq> uint (subblock_index example_max_index_info) + 1"
    by (simp add: example_index_wrap_fields)
  have b1: "main example_sum_wrap_tx = CKB_SUCCESS"
    by (simp add: main_eval example_index_wrap_defs example_defs eval_defs)
  have b2: "look_for_poa_cell example_sum_wrap_tx (tx_script_args example_sum_wrap_tx)
              CKB_SOURCE_CELL_DEP SIZE_MAX = (CKB_SUCCESS, 0)"
    by (simp add: example_index_wrap_defs example_defs eval_defs)
  have b3: "load_new_block example_sum_wrap_tx (tx_script_args example_sum_wrap_tx) 0 =
              Inr (example_poa_setup, example_late_round_info, example_restart_info,
                   0x400000000000003C)"
    by (simp add: load_new_block_def example_index_wrap_defs example_defs eval_defs)
  have b4: "uint (take_bit 56 (0x400000000000003C :: 64 word))
              < uint (round_initial_subtime example_late_round_info)
                + uint (subblock_intervals example_poa_setup)"
    by (simp add: example_index_wrap_fields example_poa_setup_def)
  have b5: "uint (round_initial_subtime example_restart_info)
              \<noteq> uint (round_initial_subtime example_late_round_info)"
    by (simp add: example_index_wrap_fields)
  from a1 a2 a3 a4 a5 b1 b2 b3 b4 b5 show ?thesis by (intro conjI)
qed






lemmas example_stale_defs =
  example_stale_index_tx_def example_stale_info_def example_late_info_def

lemma example_stale_info_fields:
  "round_initial_subtime example_stale_info = 1000"
  "aggregator_index example_stale_info = 5"
  "round_initial_subtime example_late_info = 1300"
  "aggregator_index example_late_info = 1"
  by (simp_all add: example_stale_defs eval_defs)

lemma example_stale_index_load:
  "load_new_block example_stale_index_tx (tx_script_args example_stale_index_tx) 0 =
     Inr (example_poa_setup, example_stale_info, example_late_info, 0x4000000000000514)"
  by (simp add: load_new_block_def example_stale_defs example_defs eval_defs)

text \<open>
  C9: in the block-production mode only the aggregator index of the produced subblock is
  compared with the aggregator number; the index of the consumed subblock is used as it
  is. The transaction \<open>example_stale_index_tx\<close> consumes a subblock that names aggregator
  5 under a setup of three aggregators, and \<open>main\<close> accepts it on the rollover branch:
  the steps from aggregator 5 to aggregator 1 are computed from the unchecked index
  (\<open>1 + 3 - 5\<close> wraps around in 64 bits and leaves 0 modulo 3, so 3 steps).
\<close>

theorem new_block_accepts_unchecked_last_index:
  "main example_stale_index_tx = CKB_SUCCESS
   \<and> look_for_poa_cell example_stale_index_tx (tx_script_args example_stale_index_tx)
         CKB_SOURCE_CELL_DEP SIZE_MAX = (CKB_SUCCESS, 0)
   \<and> load_new_block example_stale_index_tx (tx_script_args example_stale_index_tx) 0 =
         Inr (example_poa_setup, example_stale_info, example_late_info, 0x4000000000000514)
   \<and> unat (aggregator_number example_poa_setup) \<le> unat (aggregator_index example_stale_info)
   \<and> \<not> (0x4000000000000514 :: 64 word) AND 0x00FFFFFFFFFFFFFF
         < round_initial_subtime example_stale_info
           + ucast (subblock_intervals example_poa_setup)
   \<and> rollover_steps (aggregator_index example_late_info)
         (aggregator_number example_poa_setup) (aggregator_index example_stale_info) = 3"
proof -
  have accepted: "main example_stale_index_tx = CKB_SUCCESS"
    by (simp add: main_eval example_stale_defs example_defs eval_defs)
  have mode: "look_for_poa_cell example_stale_index_tx
                (tx_script_args example_stale_index_tx) CKB_SOURCE_CELL_DEP SIZE_MAX
              = (CKB_SUCCESS, 0)"
    by (simp add: example_stale_defs example_defs eval_defs)
  have range: "unat (aggregator_number example_poa_setup)
                 \<le> unat (aggregator_index example_stale_info)"
    by (simp add: example_stale_info_fields example_poa_setup_def)
  have over: "\<not> (0x4000000000000514 :: 64 word) AND 0x00FFFFFFFFFFFFFF
                < round_initial_subtime example_stale_info
                  + ucast (subblock_intervals example_poa_setup)"
    by (simp add: example_stale_info_fields example_poa_setup_def word_less_nat_alt)
  have steps: "rollover_steps (aggregator_index example_late_info)
                 (aggregator_number example_poa_setup) (aggregator_index example_stale_info)
               = 3"
    unfolding rollover_steps_def Let_def
    by (simp add: example_stale_info_fields example_poa_setup_def word_mod_def
          unsigned_minus_1_eq_mask mask_eq_exp_minus_1)
  from accepted mode example_stale_index_load range over steps show ?thesis
    by (intro conjI)
qed

section \<open>The single signer\<close>






text \<open>
  Whenever the loop accepts, some input whose lock hash could be read matches the
  identity, whatever the other reads returned.
\<close>

lemma validate_single_signing_from_accepts:
  "validate_single_signing_from tx identity n current = CKB_SUCCESS \<Longrightarrow>
   \<exists>c \<in> set (tx_inputs tx).
      fst (cell_lock_hash c) = CKB_SUCCESS
      \<and> memcmp_eq (take 32 (snd (cell_lock_hash c))) identity n"
proof (induction "length (tx_inputs tx) - current" arbitrary: current)
  case 0
  then have "\<not> current < length (tx_inputs tx)" by simp
  then have "validate_single_signing_from tx identity n current \<noteq> CKB_SUCCESS"
    by (subst validate_single_signing_from.simps)
       (simp add: ckb_load_cell_by_field_def return_codes)
  with "0.prems" show ?case by simp
next
  case (Suc k)
  then have inside: "current < length (tx_inputs tx)" by simp
  define c where "c = tx_inputs tx ! current"
  have c_in: "c \<in> set (tx_inputs tx)" using inside by (simp add: c_def)
  have read: "ckb_load_cell_by_field tx current CKB_SOURCE_INPUT CKB_CELL_FIELD_LOCK_HASH
                = cell_lock_hash c"
    using inside by (simp add: ckb_load_cell_by_field_def c_def)
  have k: "k = length (tx_inputs tx) - (current + 1)" using Suc.hyps(2) by simp
  show ?case
  proof (cases "fst (cell_lock_hash c) = CKB_SUCCESS
                \<and> memcmp_eq (take 32 (snd (cell_lock_hash c))) identity n")
    case True
    with c_in show ?thesis by blast
  next
    case False
    with Suc.prems read have
      "validate_single_signing_from tx identity n (current + 1) = CKB_SUCCESS"
      by (subst (asm) validate_single_signing_from.simps)
         (auto simp: case_prod_beta return_codes split: if_splits)
    from Suc.hyps(1) [OF k this] show ?thesis .
  qed
qed

section \<open>Normal new blocks: the signer and the arithmetic\<close>

text \<open>
  A transaction accepted in the block-production mode names, in the subblock it
  produces, an aggregator index below the aggregator number, and the lock hash of one of
  its inputs equals the identity of that aggregator.
\<close>

theorem new_block_signer:
  assumes "main tx = CKB_SUCCESS"
    and "look_for_poa_cell tx (tx_script_args tx) CKB_SOURCE_CELL_DEP SIZE_MAX
           = (CKB_SUCCESS, dep)"
    and "load_new_block tx (tx_script_args tx) dep
           = Inr (poa_setup, last_info, current_info, since_field)"
  shows "unat (aggregator_index current_info) < unat (aggregator_number poa_setup)
       \<and> input_matches tx (identities poa_setup) (unat (identity_size poa_setup))
           (unat (aggregator_index current_info))"
proof -
  have "validate_single_signing_from tx
           (drop (unat (aggregator_index current_info) * unat (identity_size poa_setup))
              (identities poa_setup))
           (unat (identity_size poa_setup)) 0 = CKB_SUCCESS"
    using new_block_accepts(2) [OF main_new_block [OF assms(1,2)] assms(3)]
    by (simp add: validate_single_signing_def)
  from validate_single_signing_from_accepts [OF this] load_new_block_index [OF assms(3)]
  show ?thesis by (simp add: input_matches_def)
qed

theorem new_block_signer_witness:
  "main example_rollover_tx = CKB_SUCCESS
   \<and> unat (aggregator_index example_rollover_info) < unat (aggregator_number example_poa_setup)
   \<and> input_matches example_rollover_tx (identities example_poa_setup)
       (unat (identity_size example_poa_setup)) (unat (aggregator_index example_rollover_info))"
  using new_block_signer [OF example_rollover_main example_rollover_mode example_rollover_load]
        example_rollover_main
  by simp

lemma unat_ucast_up:
  "LENGTH('a) \<le> LENGTH('b) \<Longrightarrow> unat (ucast w :: 'b::len word) = unat w"
  for w :: "'a::len word"
  by (simp add: unsigned_ucast_eq take_bit_nat_eq_self_iff
        less_le_trans [OF unsigned_less])

lemma unat_rollover_steps:
  assumes "unat l \<le> unat c + unat n"
  shows "unat (rollover_steps c n l) =
           (let s = (unat c + unat n - unat l) mod unat n
            in if s = 0 then unat n else s)"
proof -
  define C :: "64 word" where "C = ucast c"
  define N :: "64 word" where "N = ucast n"
  define L :: "64 word" where "L = ucast l"
  have c: "unat C = unat c" and n: "unat N = unat n" and l: "unat L = unat l"
    by (simp_all add: C_def N_def L_def unat_ucast_up)
  have "unat c < 2 ^ 16" "unat n < 2 ^ 8"
    using unsigned_less [of c] unsigned_less [of n] by simp_all
  then have "unat C + unat N < 2 ^ LENGTH(64)" by (simp add: c n)
  then have cn: "unat (C + N) = unat c + unat n"
    by (simp add: unat_add_lem [THEN iffD1] c n)
  with assms have "L \<le> C + N" by (simp add: word_le_nat_alt l)
  then have "unat (C + N - L) = unat c + unat n - unat l"
    by (simp add: unat_sub cn l)
  then have m: "unat ((C + N - L) mod N) = (unat c + unat n - unat l) mod unat n"
    by (simp add: unat_mod n)
  have "((C + N - L) mod N = 0) = ((unat c + unat n - unat l) mod unat n = 0)"
    using m by (metis unat_eq_0)
  then show ?thesis
    unfolding rollover_steps_def Let_def C_def [symmetric] N_def [symmetric] L_def [symmetric]
    using m n by simp
qed

text \<open>
  The conditions of the same-round continuation over the natural numbers. When the consumed subblock is one
  the script could have produced (its round began below \<open>2 ^ 63\<close>, its index is not the
  largest 32-bit value), nothing wraps around: the produced index is the consumed index
  plus one as a number.
\<close>

theorem new_block_same_round_nat:
  assumes "main tx = CKB_SUCCESS"
    and "look_for_poa_cell tx (tx_script_args tx) CKB_SOURCE_CELL_DEP SIZE_MAX
           = (CKB_SUCCESS, dep)"
    and "load_new_block tx (tx_script_args tx) dep
           = Inr (poa_setup, last_info, current_info, since_field)"
    and no_wrap: "unat (round_initial_subtime last_info) < 2 ^ 63"
                 "unat (subblock_index last_info) < 2 ^ 32 - 1"
    and same: "unat (take_bit 56 since_field)
                 < unat (round_initial_subtime last_info) + unat (subblock_intervals poa_setup)"
  shows "unat (round_initial_subtime current_info) = unat (round_initial_subtime last_info)
       \<and> unat (subblock_subtime last_info) \<le> unat (subblock_subtime current_info)
       \<and> unat (aggregator_index current_info) = unat (aggregator_index last_info)
       \<and> unat (subblock_index current_info) = unat (subblock_index last_info) + 1
       \<and> unat (subblock_index current_info) < unat (subblocks_per_interval poa_setup)"
proof -
  have interval: "unat (ucast (subblock_intervals poa_setup) :: 64 word)
                    = unat (subblock_intervals poa_setup)"
    by (simp add: unsigned_ucast_eq take_bit_nat_eq_self_iff unsigned_less [of "subblock_intervals poa_setup", simplified] less_trans [OF unsigned_less])
  have "unat (subblock_intervals poa_setup) < 2 ^ 32"
    using unsigned_less [of "subblock_intervals poa_setup"] by simp
  with no_wrap(1) have
    "unat (round_initial_subtime last_info)
       + unat (ucast (subblock_intervals poa_setup) :: 64 word) < 2 ^ LENGTH(64)"
    by (simp add: interval)
  then have sum: "unat (round_initial_subtime last_info + ucast (subblock_intervals poa_setup))
               = unat (round_initial_subtime last_info) + unat (subblock_intervals poa_setup)"
    by (simp add: unat_add_lem [THEN iffD1] interval)
  have cond: "since_field AND 0x00FFFFFFFFFFFFFF
                < round_initial_subtime last_info + ucast (subblock_intervals poa_setup)"
    using same by (simp add: word_less_nat_alt sum since_magnitude)
  note w = check_new_block_same_round
             [OF new_block_accepts(1) [OF main_new_block [OF assms(1,2)] assms(3)] cond]
  have "unat (subblock_index last_info) + unat (1 :: 32 word) < 2 ^ LENGTH(32)"
    using no_wrap(2) by simp
  then have "unat (subblock_index last_info + 1) = unat (subblock_index last_info) + 1"
    by (simp add: unat_add_lem [THEN iffD1])
  with w show ?thesis
    by (metis word_le_nat_alt word_less_nat_alt)
qed

theorem new_block_same_round_nat_witness:
  "main example_same_round_tx = CKB_SUCCESS
   \<and> unat (subblock_index example_same_round_info)
       = unat (subblock_index example_last_info) + 1
   \<and> unat (subblock_index example_same_round_info)
       < unat (subblocks_per_interval example_poa_setup)
   \<and> unat (subblock_subtime example_last_info)
       \<le> unat (subblock_subtime example_same_round_info)"
proof -
  have a: "unat (round_initial_subtime example_last_info) < 2 ^ 63"
    and b: "unat (subblock_index example_last_info) < 2 ^ 32 - 1"
    and c: "unat (take_bit 56 (0x400000000000041A :: 64 word))
              < unat (round_initial_subtime example_last_info)
                + unat (subblock_intervals example_poa_setup)"
    by (simp_all add: example_info_fields example_poa_setup_def)
  from new_block_same_round_nat [OF example_same_round_main example_same_round_mode
                                    example_same_round_load a b c]
       example_same_round_main
  show ?thesis by blast
qed

text \<open>
  The condition of the rollover over the natural numbers. When the consumed subblock is one
  the script could have produced (its round began below \<open>2 ^ 63\<close>, its aggregator index
  is below the aggregator number), nothing wraps around: \<open>steps\<close> is
  \<open>(current index + number - last index) mod number\<close>, or the number when that is 0, and
  the since value is at least the start of the last round plus \<open>steps\<close> intervals.
\<close>

theorem new_block_rollover_nat:
  assumes "main tx = CKB_SUCCESS"
    and "look_for_poa_cell tx (tx_script_args tx) CKB_SOURCE_CELL_DEP SIZE_MAX
           = (CKB_SUCCESS, dep)"
    and "load_new_block tx (tx_script_args tx) dep
           = Inr (poa_setup, last_info, current_info, since_field)"
    and valid: "unat (round_initial_subtime last_info) < 2 ^ 63"
               "unat (aggregator_index last_info) < unat (aggregator_number poa_setup)"
    and over: "unat (round_initial_subtime last_info) + unat (subblock_intervals poa_setup)
                 \<le> unat (take_bit 56 since_field)"
  shows "(let n = unat (aggregator_number poa_setup);
              s = (unat (aggregator_index current_info) + n
                     - unat (aggregator_index last_info)) mod n;
              steps = (if s = 0 then n else s)
          in unat (round_initial_subtime last_info)
               + steps * unat (subblock_intervals poa_setup)
               \<le> unat (take_bit 56 since_field))"
proof -
  define I :: "64 word" where "I = ucast (subblock_intervals poa_setup)"
  define R where "R = round_initial_subtime last_info"
  define steps where
    "steps = rollover_steps (aggregator_index current_info) (aggregator_number poa_setup)
               (aggregator_index last_info)"
  have i: "unat I = unat (subblock_intervals poa_setup)"
    by (simp add: I_def unat_ucast_up)
  have i_small: "unat I < 2 ^ 32"
    using unsigned_less [of "subblock_intervals poa_setup"] by (simp add: i)
  have n_small: "unat (aggregator_number poa_setup) < 2 ^ 8"
    using unsigned_less [of "aggregator_number poa_setup"] by simp
  have "unat R + unat I < 2 ^ LENGTH(64)"
    using valid(1) i_small by (simp add: R_def)
  then have sum: "unat (R + I) = unat R + unat I"
    by (simp add: unat_add_lem [THEN iffD1])
  have "unat (R + I) \<le> unat (take_bit 56 since_field)"
    using over sum i by (simp add: R_def)
  then have "\<not> take_bit 56 since_field < R + I"
    by (simp only: word_less_nat_alt not_less)
  then have cond: "\<not> since_field AND 0x00FFFFFFFFFFFFFF
                < round_initial_subtime last_info + ucast (subblock_intervals poa_setup)"
    unfolding since_magnitude R_def I_def .
  have w: "steps * I + R \<le> take_bit 56 since_field"
    using check_new_block_rollover
            [OF new_block_accepts(1) [OF main_new_block [OF assms(1,2)] assms(3)] cond]
    by (simp add: steps_def I_def R_def since_magnitude)
  have s: "unat steps =
             (let s = (unat (aggregator_index current_info)
                         + unat (aggregator_number poa_setup)
                         - unat (aggregator_index last_info))
                      mod unat (aggregator_number poa_setup)
              in if s = 0 then unat (aggregator_number poa_setup) else s)"
    unfolding steps_def using valid(2) by (intro unat_rollover_steps) simp
  have pos: "0 < unat (aggregator_number poa_setup)" using valid(2) by simp
  have "unat steps \<le> unat (aggregator_number poa_setup)"
    unfolding s Let_def using pos by (simp add: less_imp_le)
  with n_small have steps_small: "unat steps < 2 ^ 8" by simp
  have "unat steps * unat I < 2 ^ 8 * 2 ^ 32"
    using steps_small i_small by (intro mult_strict_mono) simp_all
  then have prod_small: "unat steps * unat I < 2 ^ 40" by simp
  then have "unat steps * unat I < 2 ^ LENGTH(64)" by simp
  then have prod: "unat (steps * I) = unat steps * unat I"
    by (simp add: unat_mult_lem [THEN iffD1])
  have "unat (steps * I) + unat R < 2 ^ LENGTH(64)"
    using prod_small valid(1) by (simp add: prod R_def)
  then have "unat (steps * I + R) = unat steps * unat I + unat R"
    by (simp add: unat_add_lem [THEN iffD1] prod)
  with w have "unat R + unat steps * unat I \<le> unat (take_bit 56 since_field)"
    by (simp add: word_le_nat_alt add.commute)
  then show ?thesis
    unfolding Let_def s [unfolded Let_def, symmetric] by (simp add: R_def i)
qed

theorem new_block_rollover_nat_witness:
  "main example_rollover_tx = CKB_SUCCESS
   \<and> (unat (aggregator_index example_rollover_info)
        + unat (aggregator_number example_poa_setup)
        - unat (aggregator_index example_last_info))
       mod unat (aggregator_number example_poa_setup) = 1
   \<and> unat (round_initial_subtime example_last_info)
       + 1 * unat (subblock_intervals example_poa_setup)
       \<le> unat (take_bit 56 (0x4000000000000451 :: 64 word))"
proof -
  have a: "unat (round_initial_subtime example_last_info) < 2 ^ 63"
    and b: "unat (aggregator_index example_last_info)
              < unat (aggregator_number example_poa_setup)"
    and c: "unat (round_initial_subtime example_last_info)
              + unat (subblock_intervals example_poa_setup)
              \<le> unat (take_bit 56 (0x4000000000000451 :: 64 word))"
    by (simp_all add: example_info_fields example_poa_setup_def)
  have steps: "(unat (aggregator_index example_rollover_info)
        + unat (aggregator_number example_poa_setup)
        - unat (aggregator_index example_last_info))
       mod unat (aggregator_number example_poa_setup) = 1"
    by (simp add: example_info_fields example_poa_setup_def)
  from new_block_rollover_nat [OF example_rollover_main example_rollover_mode
                                  example_rollover_load a b c]
  have "unat (round_initial_subtime example_last_info)
       + 1 * unat (subblock_intervals example_poa_setup)
       \<le> unat (take_bit 56 (0x4000000000000451 :: 64 word))"
    unfolding Let_def steps by simp
  with example_rollover_main steps show ?thesis by (intro conjI)
qed

section \<open>Looking for a PoA cell\<close>

text \<open>
  One round of the loop of \<open>look_for_poa_cell\<close>: a read that answers
  \<^verbatim>\<open>CKB_ITEM_MISSING\<close> is skipped; a read that answers anything but that and
  \<^verbatim>\<open>CKB_SUCCESS\<close> (the \<^verbatim>\<open>default\<close> case) ends the scan, and the function returns what the
  end of the side would have returned.
\<close>

lemma look_for_poa_cell_from_missing:
  assumes "current < SIZE_MAX"
    and "fst (ckb_load_cell_by_field tx current src CKB_CELL_FIELD_TYPE) = CKB_ITEM_MISSING"
  shows "look_for_poa_cell_from tx type_id src index current found_index
           = look_for_poa_cell_from tx type_id src index (current + 1) found_index"
  using assms
  by (subst look_for_poa_cell_from.simps) (simp add: case_prod_beta)

lemma look_for_poa_cell_from_failure:
  assumes "current < SIZE_MAX"
    and "fst (ckb_load_cell_by_field tx current src CKB_CELL_FIELD_TYPE) \<noteq> CKB_ITEM_MISSING"
    and "fst (ckb_load_cell_by_field tx current src CKB_CELL_FIELD_TYPE) \<noteq> CKB_SUCCESS"
  shows "look_for_poa_cell_from tx type_id src index current found_index
           = look_for_poa_cell_end found_index index"
  using assms
  by (subst look_for_poa_cell_from.simps) (simp add: case_prod_beta)

text \<open>
  A cell whose type script read answers \<^verbatim>\<open>CKB_ITEM_MISSING\<close> is skipped: the scan
  goes on with the next cell and the match found so far is kept.
\<close>

theorem look_for_poa_cell_skips_missing:
  assumes "current < SIZE_MAX"
    and "fst (ckb_load_cell_by_field tx current src CKB_CELL_FIELD_TYPE) = CKB_ITEM_MISSING"
  shows "look_for_poa_cell_from tx type_id src index current found_index
           = look_for_poa_cell_from tx type_id src index (current + 1) found_index"
  using assms by (rule look_for_poa_cell_from_missing)

theorem look_for_poa_cell_skips_missing_witness:
  "look_for_poa_cell_from
     (example_signers_tx [example_signer 0xA0, example_cell example_state_ref [] 0xA0])
     example_state_ref CKB_SOURCE_INPUT SIZE_MAX 0 SIZE_MAX
   = look_for_poa_cell_from
     (example_signers_tx [example_signer 0xA0, example_cell example_state_ref [] 0xA0])
     example_state_ref CKB_SOURCE_INPUT SIZE_MAX (0 + 1) SIZE_MAX
   \<and> look_for_poa_cell_from
     (example_signers_tx [example_signer 0xA0, example_cell example_state_ref [] 0xA0])
     example_state_ref CKB_SOURCE_INPUT SIZE_MAX (0 + 1) SIZE_MAX = (CKB_SUCCESS, 1)"
proof -
  have a: "(0 :: nat) < SIZE_MAX" by (simp add: SIZE_MAX_def)
  have b: "fst (ckb_load_cell_by_field
             (example_signers_tx [example_signer 0xA0, example_cell example_state_ref [] 0xA0])
             0 CKB_SOURCE_INPUT CKB_CELL_FIELD_TYPE) = CKB_ITEM_MISSING"
    by (simp add: example_defs eval_defs)
  have c: "look_for_poa_cell_from
     (example_signers_tx [example_signer 0xA0, example_cell example_state_ref [] 0xA0])
     example_state_ref CKB_SOURCE_INPUT SIZE_MAX (0 + 1) SIZE_MAX = (CKB_SUCCESS, 1)"
    by (simp add: example_defs eval_defs)
  from look_for_poa_cell_skips_missing [OF a b] c show ?thesis by (intro conjI)
qed

text \<open>
  C2 (the code does not do what the claim says): the claim has every read failure other
  than item missing and index out of bound returned to the caller as an error. In the
  code the failure only ends the scan. With an input whose type script cannot be read
  (code 4) in front of the PoA cell, \<open>look_for_poa_cell\<close> answers
  \<^verbatim>\<open>CKB_INDEX_OUT_OF_BOUND\<close>, its "not found"; with that input behind the PoA cell it
  answers \<^verbatim>\<open>CKB_SUCCESS\<close> with the index of the PoA cell. The part of the claim about
  missing items holds: an input without a type script is skipped and the PoA cell behind
  it is found.
\<close>

theorem look_for_poa_cell_hides_read_failure:
  "look_for_poa_cell
     (example_signers_tx [example_unreadable_cell, example_cell example_state_ref [] 0xA0])
     example_state_ref CKB_SOURCE_INPUT SIZE_MAX
     = (CKB_INDEX_OUT_OF_BOUND, SIZE_MAX)
   \<and> look_for_poa_cell
     (example_signers_tx [example_cell example_state_ref [] 0xA0, example_unreadable_cell])
     example_state_ref CKB_SOURCE_INPUT SIZE_MAX
     = (CKB_SUCCESS, 0)
   \<and> look_for_poa_cell
     (example_signers_tx [example_signer 0xA0, example_cell example_state_ref [] 0xA0])
     example_state_ref CKB_SOURCE_INPUT SIZE_MAX
     = (CKB_SUCCESS, 1)"
  by (simp add: example_unreadable_cell_def example_defs eval_defs)

section \<open>The consensus of signers\<close>

lemmas consensus_eval =
  validate_consensus_signing_def validate_consensus_signing_from.simps find_identity.simps
  shl_int_1_def

text \<open>
  The value or-ed into the mask for the identities 3, 31 and 32: the bit 3; the bits 31
  to 63; the bit 0.
\<close>

lemma shl_int_1_values:
  "shl_int_1 3 = 8" "shl_int_1 31 = 0xFFFFFFFF80000000" "shl_int_1 32 = 1"
  by (simp_all add: shl_int_1_def)

lemma mask_test_bit: "(drop_bit k w AND 1 \<noteq> 0) = bit w k" for w :: "64 word"
  unfolding bit_iff_odd_drop_bit and_one_eq by (simp add: even_iff_mod_2_eq_zero)

lemma bit_shl_int_1: "k < 32 \<Longrightarrow> i < 32 \<Longrightarrow> bit (shl_int_1 k) i = (i = k)"
  by (auto simp: shl_int_1_def bit_word_scast_iff bit_simps)

lemma find_identity_found:
  "find_identity marks hash ids n count k = r \<Longrightarrow> r < count \<Longrightarrow>
     \<not> bit (marks ! (unat r div 64)) (unat r mod 64)
     \<and> memcmp_eq hash (drop (unat r * n) ids) n"
proof (induction marks hash ids n count k rule: find_identity.induct)
  case (1 marks hash ids n count k)
  show ?case
  proof (cases "k < count")
    case False
    then have "find_identity marks hash ids n count k = k"
      by (subst find_identity.simps) simp
    with "1.prems" False show ?thesis by simp
  next
    case True
    show ?thesis
    proof (cases "\<not> bit (marks ! (unat k div 64)) (unat k mod 64)
                  \<and> memcmp_eq hash (drop (unat k * n) ids) n")
      case here: True
      then have "find_identity marks hash ids n count k = k"
        using True by (subst find_identity.simps) (simp add: mask_test_bit)
      with "1.prems" here show ?thesis by simp
    next
      case further: False
      then have step: "find_identity marks hash ids n count k
                   = find_identity marks hash ids n count (k + 1)"
        using True by (subst find_identity.simps) (auto simp: mask_test_bit)
      show ?thesis
        using "1.IH" [OF True refl] further "1.prems" step
        by (auto simp: mask_test_bit)
    qed
  qed
qed

lemma validate_consensus_signing_from_step:
  assumes "current < SIZE_MAX"
    and "ckb_load_cell_by_field tx current CKB_SOURCE_INPUT CKB_CELL_FIELD_LOCK_HASH
           = (CKB_SUCCESS, item)"
  shows "validate_consensus_signing_from tx ids n count t marks found current =
           (let r = find_identity marks (take 32 item) ids n count 0
            in if r < count then
                 (if found + 1 = t then CKB_SUCCESS
                  else validate_consensus_signing_from tx ids n count t
                         (marks[unat r div 64 :=
                                  marks ! (unat r div 64) OR shl_int_1 (unat r mod 64)])
                         (found + 1) (current + 1))
               else validate_consensus_signing_from tx ids n count t marks found
                      (current + 1))"
  using assms
  by (subst validate_consensus_signing_from.simps) (simp add: return_codes)

lemma validate_consensus_signing_from_stop:
  assumes "\<not> current < SIZE_MAX
           \<or> fst (ckb_load_cell_by_field tx current CKB_SOURCE_INPUT CKB_CELL_FIELD_LOCK_HASH)
               \<noteq> CKB_SUCCESS"
  shows "validate_consensus_signing_from tx ids n count t marks found current \<noteq> CKB_SUCCESS"
  using assms
  by (subst validate_consensus_signing_from.simps)
     (auto simp: return_codes case_prod_beta)

lemma validate_consensus_signing_from_sound:
  assumes small: "unat count \<le> 32"
  shows "validate_consensus_signing_from tx ids n count t marks found current = CKB_SUCCESS
         \<Longrightarrow> marks \<noteq> []
         \<Longrightarrow> S \<subseteq> {i. i < unat count}
         \<Longrightarrow> \<forall>i < unat count. bit (marks ! 0) i = (i \<in> S)
         \<Longrightarrow> unat found = card S
         \<Longrightarrow> \<forall>i \<in> S. input_matches tx ids n i
         \<Longrightarrow> t \<noteq> 0
             \<and> (\<exists>S'. S' \<subseteq> {i. i < unat count} \<and> card S' = unat t
                     \<and> (\<forall>i \<in> S'. input_matches tx ids n i))"
proof (induction "length (tx_inputs tx) - current" arbitrary: marks found current S)
  case 0
  then have "\<not> current < length (tx_inputs tx)" by simp
  then have "fst (ckb_load_cell_by_field tx current CKB_SOURCE_INPUT CKB_CELL_FIELD_LOCK_HASH)
               \<noteq> CKB_SUCCESS"
    by (simp add: ckb_load_cell_by_field_def return_codes)
  then have "validate_consensus_signing_from tx ids n count t marks found current
               \<noteq> CKB_SUCCESS"
    by (intro validate_consensus_signing_from_stop) simp
  with "0.prems"(1) show ?case by simp
next
  case (Suc k)
  note accepted = Suc.prems(1) and nonempty = Suc.prems(2) and sub = Suc.prems(3)
    and bits = Suc.prems(4) and count_ok = Suc.prems(5) and matched = Suc.prems(6)
  from Suc.hyps(2) have inside: "current < length (tx_inputs tx)" by simp
  define c where "c = tx_inputs tx ! current"
  have c_in: "c \<in> set (tx_inputs tx)" using inside by (simp add: c_def)
  have read: "ckb_load_cell_by_field tx current CKB_SOURCE_INPUT CKB_CELL_FIELD_LOCK_HASH
                = cell_lock_hash c"
    using inside by (simp add: ckb_load_cell_by_field_def c_def)
  have cur: "current < SIZE_MAX"
    using accepted validate_consensus_signing_from_stop by blast
  have ret: "fst (cell_lock_hash c) = CKB_SUCCESS"
    using accepted validate_consensus_signing_from_stop read by metis
  define item where "item = snd (cell_lock_hash c)"
  have read': "ckb_load_cell_by_field tx current CKB_SOURCE_INPUT CKB_CELL_FIELD_LOCK_HASH
                 = (CKB_SUCCESS, item)"
    using read ret by (simp add: item_def prod_eq_iff)
  define r where "r = find_identity marks (take 32 item) ids n count 0"
  note step = validate_consensus_signing_from_step [OF cur read', of ids n count t marks found,
                 folded r_def, unfolded Let_def]
  have k: "k = length (tx_inputs tx) - (current + 1)" using Suc.hyps(2) by simp
  have fin: "finite S" using sub by (rule finite_subset) simp
  show ?case
  proof (cases "r < count")
    case False
    with step accepted have
      "validate_consensus_signing_from tx ids n count t marks found (current + 1) = CKB_SUCCESS"
      by simp
    from Suc.hyps(1) [OF k this nonempty sub bits count_ok matched] show ?thesis .
  next
    case True
    then have r_small: "unat r < unat count" by (simp add: word_less_nat_alt)
    with small have r32: "unat r < 32" by simp
    then have pos: "unat r div 64 = 0" "unat r mod 64 = unat r" by simp_all
    from find_identity_found [OF r_def [symmetric] True]
    have fresh: "\<not> bit (marks ! 0) (unat r)"
      and same: "memcmp_eq (take 32 item) (drop (unat r * n) ids) n"
      by (simp_all add: pos)
    from fresh bits r_small have r_new: "unat r \<notin> S" by simp
    define S' where "S' = insert (unat r) S"
    have sub': "S' \<subseteq> {i. i < unat count}" using sub r_small by (auto simp: S'_def)
    have card': "card S' = Suc (card S)" using fin r_new by (simp add: S'_def)
    have "card S' \<le> card {i. i < unat count}"
      using sub' by (intro card_mono) simp_all
    then have "card S' \<le> 32" using small by simp
    with card' count_ok have "unat found + 1 < 2 ^ LENGTH(8)" by simp
    then have found': "unat (found + 1) = card S'"
      using card' count_ok by (simp add: unat_add_lem [THEN iffD1])
    have "input_matches tx ids n (unat r)"
      unfolding input_matches_def using c_in ret same by (auto simp: item_def)
    with matched have matched': "\<forall>i \<in> S'. input_matches tx ids n i"
      by (simp add: S'_def)
    show ?thesis
    proof (cases "found + 1 = t")
      case True
      with found' have "card S' = unat t" by simp
      moreover from this card' have "t \<noteq> 0" by auto
      ultimately show ?thesis using sub' matched' by blast
    next
      case False
      define marks' where
        "marks' = marks[0 := marks ! 0 OR shl_int_1 (unat r)]"
      from False True step accepted have run:
        "validate_consensus_signing_from tx ids n count t marks' (found + 1) (current + 1)
           = CKB_SUCCESS"
        by (simp add: pos marks'_def)
      have nonempty': "marks' \<noteq> []" using nonempty by (simp add: marks'_def)
      have bits': "\<forall>i < unat count. bit (marks' ! 0) i = (i \<in> S')"
      proof (intro allI impI)
        fix i assume i: "i < unat count"
        with small have "i < 32" by simp
        then have "bit (shl_int_1 (unat r)) i = (i = unat r)"
          using r32 by (simp add: bit_shl_int_1)
        moreover have "marks' ! 0 = marks ! 0 OR shl_int_1 (unat r)"
          using nonempty by (simp add: marks'_def)
        ultimately show "bit (marks' ! 0) i = (i \<in> S')"
          using bits i by (auto simp: bit_or_iff S'_def)
      qed
      from Suc.hyps(1) [OF k run nonempty' sub' bits' found' matched'] show ?thesis .
    qed
  qed
qed

text \<open>
  With at most 32 identities every shift of the mask is within the width of \<^verbatim>\<open>int\<close>, and
  the check is sound: when \<open>validate_consensus_signing\<close> accepts, the threshold is not 0
  and there are as many different identities as the threshold asks for, each matched by
  the lock hash of some input. No identity is counted twice.
\<close>

theorem validate_consensus_signing_sound:
  assumes "unat identity_count \<le> 32"
    and "validate_consensus_signing tx identity_buffer id_size identity_count threshold
           = CKB_SUCCESS"
  shows "threshold \<noteq> 0
       \<and> (\<exists>S. S \<subseteq> {i. i < unat identity_count} \<and> card S = unat threshold
               \<and> (\<forall>i \<in> S. input_matches tx identity_buffer id_size i))"
  using validate_consensus_signing_from_sound
          [OF assms(1), of tx identity_buffer id_size threshold "[0, 0, 0, 0]" 0 0 "{}"]
        assms(2)
  by (simp add: validate_consensus_signing_def)

theorem validate_consensus_signing_sound_witness:
  "validate_consensus_signing
     (example_signers_tx [example_signer 0xA1, example_signer 0xA0]) [0xA0, 0xA1] 1 2 2
     = CKB_SUCCESS
   \<and> (\<exists>S. S \<subseteq> {i. i < 2} \<and> card S = 2
           \<and> (\<forall>i \<in> S. input_matches
                 (example_signers_tx [example_signer 0xA1, example_signer 0xA0])
                 [0xA0, 0xA1] 1 i))"
proof -
  have accepted: "validate_consensus_signing
     (example_signers_tx [example_signer 0xA1, example_signer 0xA0]) [0xA0, 0xA1] 1 2 2
     = CKB_SUCCESS"
    by (simp add: consensus_eval example_defs eval_defs)
  have "unat (2 :: byte) \<le> 32" by simp
  from validate_consensus_signing_sound [OF this accepted] accepted
  show ?thesis by simp
qed

text \<open>
  C1 (the code does not do what the claim says): the claim has every identity credited
  at most once, for every configuration. The mask is written with a shift of the \<^verbatim>\<open>int\<close>
  constant \<^verbatim>\<open>1\<close> and read with a 64-bit shift, so crediting identity 32 sets bit 0 and
  leaves bit 32 clear: identity 32 is found unmarked again by the next input. With the
  33 identities \<open>0\<close> to \<open>32\<close> and a threshold of 2, two inputs that both match identity 32,
  and no other identity, are accepted by \<open>validate_consensus_signing\<close>, and \<open>main\<close>
  accepts the change of the setup that only this one signer has signed. The last
  conjunct says that the lock hash of these inputs matches identity 32 only.
\<close>

theorem consensus_signing_credits_identity_twice:
  "validate_consensus_signing
     (example_signers_tx [example_signer 32, example_signer 32]) example_identities 1 33 2
     = CKB_SUCCESS
   \<and> main example_change_tx = CKB_SUCCESS
   \<and> map (snd \<circ> cell_lock_hash) (tx_inputs example_change_tx)
       = [example_lock_hash 32, example_lock_hash 32]
   \<and> filter (\<lambda>b. memcmp_eq (take 32 (example_lock_hash 32)) [b] 1) example_identities
       = [32]"
proof -
  have "validate_consensus_signing
     (example_signers_tx [example_signer 32, example_signer 32]) example_identities 1 33 2
     = CKB_SUCCESS"
    by (simp add: consensus_eval example_defs eval_defs)
  moreover have "main example_change_tx = CKB_SUCCESS"
    by (simp add: main_def consensus_mode_def consensus_eval example_change_tx_def
          example_wide_setup_def example_defs eval_defs)
  moreover have "map (snd \<circ> cell_lock_hash) (tx_inputs example_change_tx)
       = [example_lock_hash 32, example_lock_hash 32]"
    by (simp add: example_change_tx_def example_cell_def example_signer_def)
  moreover have
    "filter (\<lambda>b. memcmp_eq (take 32 (example_lock_hash 32)) [b] 1) example_identities
       = [32]"
    by (simp add: example_defs memcmp_eq_def)
  ultimately show ?thesis by (intro conjI)
qed

text \<open>
  Where the shift is within the width of \<^verbatim>\<open>int\<close> the mask works: two inputs that both
  match identity 3 are rejected under the same setup, and so are two inputs that match
  the first of two identities \<open>A\<close> and \<open>B\<close> under a threshold of 2.
\<close>

lemma consensus_signing_low_identity_once:
  "validate_consensus_signing
     (example_signers_tx [example_signer 3, example_signer 3]) example_identities 1 33 2
     = ERROR_ENCODING"
  by (simp add: consensus_eval example_defs eval_defs)

lemma consensus_signing_two_identities:
  "validate_consensus_signing
     (example_signers_tx [example_signer 0xA0, example_signer 0xA0]) [0xA0, 0xA1] 1 2 2
     = ERROR_ENCODING"
  by (simp add: consensus_eval example_defs eval_defs)

text \<open>
  The transaction \<open>example_wrap_tx\<close> has 256 inputs that all match identity 32. After
  the first one the mask is \<open>[1, 0, 0, 0]\<close> and stays so, and every further input is
  credited to identity 32 again.
\<close>

lemma example_wrap_read:
  "current < 256 \<Longrightarrow>
   ckb_load_cell_by_field example_wrap_tx current CKB_SOURCE_INPUT CKB_CELL_FIELD_LOCK_HASH
     = (CKB_SUCCESS, example_lock_hash 32)"
  by (simp add: ckb_load_cell_by_field_def example_wrap_tx_def example_signers_tx_def
        example_signer_def)

lemma example_find_first:
  "find_identity [0, 0, 0, 0] (take 32 (example_lock_hash 32)) example_identities 1 33 0 = 32"
  by (simp add: find_identity.simps memcmp_eq_def example_identities_def
        example_lock_hash_def word_less_nat_alt)

lemma example_find_again:
  "find_identity [1, 0, 0, 0] (take 32 (example_lock_hash 32)) example_identities 1 33 0 = 32"
  by (simp add: find_identity.simps memcmp_eq_def example_identities_def
        example_lock_hash_def word_less_nat_alt)

lemma example_wrap_step:
  assumes "current < 256"
  shows "validate_consensus_signing_from example_wrap_tx example_identities 1 33 0
           [1, 0, 0, 0] found current =
         (if found + 1 = 0 then CKB_SUCCESS
          else validate_consensus_signing_from example_wrap_tx example_identities 1 33 0
                 [1, 0, 0, 0] (found + 1) (current + 1))"
  using assms
  by (subst validate_consensus_signing_from.simps)
     (simp add: example_wrap_read example_find_again [unfolded One_nat_def] shl_int_1_def
        SIZE_MAX_def return_codes word_less_nat_alt)

lemma example_wrap_run:
  "k < 255 \<Longrightarrow>
   validate_consensus_signing_from example_wrap_tx example_identities 1 33 0
     [1, 0, 0, 0] (of_nat (255 - k)) (255 - k) = CKB_SUCCESS"
proof (induction k)
  case 0
  have "validate_consensus_signing_from example_wrap_tx example_identities 1 33 0
          [1, 0, 0, 0] 255 255 = CKB_SUCCESS"
    by (subst example_wrap_step) simp_all
  then show ?case by simp
next
  case (Suc k)
  then have k: "k < 255" by simp
  have next_index: "255 - Suc k + 1 = 255 - k" using Suc.prems by simp
  have next_found: "(of_nat (255 - Suc k) + 1 :: byte) = of_nat (255 - k)"
    using next_index by (metis of_nat_Suc Suc_eq_plus1 add.commute)
  have not_yet: "(of_nat (255 - k) :: byte) \<noteq> 0"
  proof
    assume "(of_nat (255 - k) :: byte) = 0"
    then have "unat (of_nat (255 - k) :: byte) = 0" by simp
    then have "(255 - k) mod 256 = 0" by (simp add: unat_of_nat)
    with k show False by presburger
  qed
  have bound: "255 - Suc k < 256" by simp
  have "validate_consensus_signing_from example_wrap_tx example_identities 1 33 0
          [1, 0, 0, 0] (of_nat (255 - Suc k)) (255 - Suc k) =
        validate_consensus_signing_from example_wrap_tx example_identities 1 33 0
          [1, 0, 0, 0] (of_nat (255 - k)) (255 - k)"
    unfolding example_wrap_step [OF bound] next_found next_index
    using not_yet by simp
  then show ?case
    using Suc.IH [OF k] by simp
qed

text \<open>
  C10 (the code does not do what the claim says): the claim has a threshold of 0 reject
  every transaction, since the count is at least 1 when it is compared. The count is a
  \<^verbatim>\<open>uint8_t\<close>: the 256th credit makes it 0 again, which equals the threshold. No
  identity can be credited twice where the mask works, so at most 255 credits are ever
  given; with the mask as C1 shows it, the 256 inputs of \<open>example_wrap_tx\<close>, which all
  match identity 32, are accepted under a threshold of 0.
\<close>

theorem consensus_signing_zero_threshold_accepts:
  "validate_consensus_signing example_wrap_tx example_identities 1 33 0 = CKB_SUCCESS
   \<and> length (tx_inputs example_wrap_tx) = 256"
proof -
  have "validate_consensus_signing example_wrap_tx example_identities 1 33 0 =
          validate_consensus_signing_from example_wrap_tx example_identities 1 33 0
            [1, 0, 0, 0] 1 1"
    unfolding validate_consensus_signing_def
    by (subst validate_consensus_signing_from.simps)
       (simp add: example_wrap_read example_find_first [unfolded One_nat_def] shl_int_1_def
          SIZE_MAX_def return_codes word_less_nat_alt)
  also have "\<dots> = CKB_SUCCESS"
    using example_wrap_run [of 254] by simp
  finally have "validate_consensus_signing example_wrap_tx example_identities 1 33 0
                  = CKB_SUCCESS" .
  moreover have "length (tx_inputs example_wrap_tx) = 256"
    by (simp add: example_wrap_tx_def example_signers_tx_def)
  ultimately show ?thesis by (rule conjI)
qed

end
